theory Spec2Isabelle
  imports Complex_Main
begin

section \<open>Python and JSON values\<close>

text \<open>
  The arguments that \<^verbatim>\<open>etcd.py\<close> inspects dynamically are \<^verbatim>\<open>None\<close>, booleans,
  integers and strings; no caller passes a float.
\<close>

datatype pyval = PNone | PBool bool | PInt int | PStr string

text \<open>
  \<^verbatim>\<open>v in (True, False)\<close> compares with \<^verbatim>\<open>==\<close>, and \<^verbatim>\<open>bool\<close> is a subclass of
  \<^verbatim>\<open>int\<close> in Python: \<^verbatim>\<open>1 == True\<close> and \<^verbatim>\<open>0 == False\<close> hold, while no string and
  not \<^verbatim>\<open>None\<close> equals a boolean.
\<close>

fun in_True_False :: "pyval \<Rightarrow> bool" where
  "in_True_False (PBool b) = True"
| "in_True_False (PInt i) = (i = 1 \<or> i = 0)"
| "in_True_False (PStr s) = False"
| "in_True_False PNone = False"

text \<open>Truthiness, as \<^verbatim>\<open>'true' if v else 'false'\<close> tests it.\<close>

fun truthy :: "pyval \<Rightarrow> bool" where
  "truthy PNone = False"
| "truthy (PBool b) = b"
| "truthy (PInt i) = (i \<noteq> 0)"
| "truthy (PStr s) = (s \<noteq> [])"

text \<open>\<^verbatim>\<open>isinstance(v, basestring)\<close>\<close>

fun is_basestring :: "pyval \<Rightarrow> bool" where
  "is_basestring (PStr s) = True"
| "is_basestring v = False"

text \<open>
  A decoded JSON document. The body of a response is taken to be a JSON object, as every
  answer of the store is; numbers are integers.
\<close>

datatype json = JNull | JBool bool | JInt int | JStr string
  | JArr "json list" | JObj "(string \<times> json) list"

type_synonym jobj = "(string \<times> json) list"

type_synonym params = "string \<rightharpoonup> pyval"

section \<open>etcd.py: the store client\<close>

text \<open>
  What \<^verbatim>\<open>requests.request\<close> does on one attempt: it raises
  \<^verbatim>\<open>requests.ConnectionError\<close>, or it returns a response with a status code and a body.
\<close>

datatype http_result = ConnectionError | Response nat jobj

datatype error =
    TypeError string
  | KeyError string
  | HTTPError nat
  | EtcdException jobj
  | StopIteration

record http_call =
  http_method :: string
  http_url :: string
  http_params :: params

text \<open>
  The outside world of one client: \<open>net k\<close> is the outcome of the \<open>k\<close>-th call of
  \<^verbatim>\<open>requests.request\<close> (counted from 0), \<open>rand k\<close> the \<open>k\<close>-th value of
  \<^verbatim>\<open>random.random()\<close>, a float \<open>r\<close> with \<open>0 \<le> r < 1\<close>.
\<close>

record env =
  net :: "nat \<Rightarrow> http_result"
  rand :: "nat \<Rightarrow> real"

text \<open>
  What the client has done so far: the calls of \<^verbatim>\<open>requests.request\<close> it has made and
  the durations it has passed to \<^verbatim>\<open>time.sleep\<close>, both oldest first.
\<close>

record io =
  calls :: "http_call list"
  slept :: "real list"

definition io0 :: io where
  "io0 = \<lparr>calls = [], slept = []\<rparr>"

text \<open>\<^verbatim>\<open>def urljoin(*args): return '/'.join(args)\<close>\<close>

fun urljoin :: "string list \<Rightarrow> string" where
  "urljoin [] = []"
| "urljoin [a] = a"
| "urljoin (a # b # bs) = a @ ''/'' @ urljoin (b # bs)"

text \<open>
  Python's \<^verbatim>\<open>float\<close> is the binary64 format of IEEE 754, and every operation rounds its
  exact result to the nearest value of the format, to the one with an even significand on
  a tie. With \<open>e\<close> the exponent of the binade of the exact result, and at least \<open>-1022\<close>,
  the values of the format near it are the multiples of 2 to the power \<open>e - 52\<close>.
  Overflow is left out: no value here exceeds 6.
\<close>

definition round_half_even :: "real \<Rightarrow> int" where
  "round_half_even x =
     (let n = \<lfloor>x\<rfloor>; d = x - of_int n
      in if d < 1 / 2 then n
         else if 1 / 2 < d then n + 1
         else if even n then n else n + 1)"

definition exponent :: "real \<Rightarrow> int" where
  "exponent x = max \<lfloor>log 2 \<bar>x\<bar>\<rfloor> (- 1022)"

definition ulp :: "real \<Rightarrow> real" where
  "ulp x = 2 powr (of_int (exponent x - 52))"

definition fl :: "real \<Rightarrow> real" where
  "fl x = sgn x * (of_int (round_half_even (\<bar>x\<bar> / ulp x)) * ulp x)"

text \<open>
  The class attributes: the integer \<^verbatim>\<open>5\<close> and the float nearest to \<^verbatim>\<open>0.2\<close>.
\<close>

definition CONNECT_RETRY_INTERVAL :: real where
  "CONNECT_RETRY_INTERVAL = 5"

definition CONNECT_RETRY_RANDOM_FACTOR :: real where
  "CONNECT_RETRY_RANDOM_FACTOR = fl (2 / 10)"

text \<open>
  Lines 65 to 67 of \<^verbatim>\<open>Client.request\<close>:
  \<^verbatim>\<open>interval += interval * (random.random() * factor*2 - factor)\<close>, where \<open>r\<close> is the
  value of \<^verbatim>\<open>random.random()\<close>. The operations are done from left to right, each one
  rounded.
\<close>

definition retry_interval :: "real \<Rightarrow> real" where
  "retry_interval r =
     (let interval = CONNECT_RETRY_INTERVAL;
          factor = CONNECT_RETRY_RANDOM_FACTOR
      in fl (interval + fl (interval * fl (fl (fl (r * factor) * 2) - factor))))"

text \<open>
  Lines 38 to 43 of \<^verbatim>\<open>Client.request\<close>: every value of the parameter dictionary that is
  \<^verbatim>\<open>in (True, False)\<close> is replaced by \<^verbatim>\<open>'true'\<close> or \<^verbatim>\<open>'false'\<close>.
\<close>

definition bool_tokens :: "params \<Rightarrow> params" where
  "bool_tokens ps =
     (\<lambda>k. case ps k of
             None \<Rightarrow> None
           | Some v \<Rightarrow>
               Some (if in_True_False v
                     then PStr (if truthy v then ''true'' else ''false'')
                     else v))"

text \<open>
  \<^verbatim>\<open>response.raise_for_status()\<close> raises \<^verbatim>\<open>HTTPError\<close> for the 4xx and 5xx codes.
\<close>

definition raise_for_status :: "nat \<Rightarrow> bool" where
  "raise_for_status status = (400 \<le> status \<and> status < 600)"

text \<open>
  Lines 56 to 61: what \<^verbatim>\<open>request\<close> makes of the response of a server it could contact.
  \<^verbatim>\<open>raise_for_status\<close> comes first; a body with the key \<^verbatim>\<open>errorCode\<close> raises
  \<^verbatim>\<open>EtcdException\<close>, which carries the decoded body; any other body is returned.
\<close>

definition handle_response :: "nat \<Rightarrow> jobj \<Rightarrow> error + jobj" where
  "handle_response status response =
     (if raise_for_status status then Inl (HTTPError status)
      else if ''errorCode'' \<in> fst ` set response then Inl (EtcdException response)
      else Inr response)"

text \<open>
  Lines 46 to 61: the \<^verbatim>\<open>for server in self.servers\<close> loop of one round. The result is
  \<open>None\<close> when the loop ran to its end (no server could be contacted), and otherwise what
  the first reachable server made the function return or raise. No caller of this
  repository passes \<^verbatim>\<open>version\<close> or \<^verbatim>\<open>prefix\<close>, so they are the defaults \<^verbatim>\<open>v2\<close> and
  \<^verbatim>\<open>keys\<close>.
\<close>

fun try_servers ::
  "env \<Rightarrow> string \<Rightarrow> string \<Rightarrow> params \<Rightarrow> string list \<Rightarrow> io \<Rightarrow> (error + jobj) option \<times> io"
where
  "try_servers e method path ps [] w = (None, w)"
| "try_servers e method path ps (server # rest) w =
     (let url = urljoin [server, ''v2'', ''keys'', path];
          w' = w\<lparr>calls := calls w @
                 [\<lparr>http_method = method, http_url = url, http_params = ps\<rparr>]\<rparr>
      in case net e (length (calls w)) of
           ConnectionError \<Rightarrow> try_servers e method path ps rest w'
         | Response status response \<Rightarrow> (Some (handle_response status response), w'))"

text \<open>
  Lines 45 to 69: the \<^verbatim>\<open>while True\<close> loop. It has no exit of its own, so the function is
  partial: \<open>None\<close> is a call that never returns.
\<close>

partial_function (option) retry_rounds ::
  "env \<Rightarrow> string \<Rightarrow> string \<Rightarrow> params \<Rightarrow> string list \<Rightarrow> io \<Rightarrow> ((error + jobj) \<times> io) option"
where
  "retry_rounds e method path ps servers w =
     (case try_servers e method path ps servers w of
        (Some r, w') \<Rightarrow> Some (r, w')
      | (None, w') \<Rightarrow>
          retry_rounds e method path ps servers
            (w'\<lparr>slept := slept w' @ [retry_interval (rand e (length (slept w')))]\<rparr>))"

definition Client_request ::
  "env \<Rightarrow> string list \<Rightarrow> string \<Rightarrow> string \<Rightarrow> params \<Rightarrow> io \<Rightarrow> ((error + jobj) \<times> io) option"
where
  "Client_request e servers method path ps w =
     retry_rounds e method path (bool_tokens ps) servers w"

text \<open>
  \<^verbatim>\<open>Client.get\<close>. Its docstring gives the type of \<^verbatim>\<open>wait\<close>: \<^verbatim>\<open>False\<close>, \<^verbatim>\<open>True\<close> or an
  integer index, so that \<^verbatim>\<open>int(wait)\<close> is the integer itself. No caller passes
  \<^verbatim>\<open>recursive\<close> or \<^verbatim>\<open>sorted\<close>.
\<close>

datatype wait = WBool bool | WInt int

fun wait_val :: "wait \<Rightarrow> pyval" where
  "wait_val (WBool b) = PBool b"
| "wait_val (WInt i) = PInt i"

fun int_of_wait :: "wait \<Rightarrow> int" where
  "int_of_wait (WBool b) = (if b then 1 else 0)"
| "int_of_wait (WInt i) = i"

definition Client_get ::
  "env \<Rightarrow> string list \<Rightarrow> string \<Rightarrow> wait \<Rightarrow> io \<Rightarrow> ((error + jobj) \<times> io) option"
where
  "Client_get e servers path wt w =
     (let ps = [''recursive'' \<mapsto> PBool False, ''sorted'' \<mapsto> PBool False,
                ''wait'' \<mapsto> wait_val wt];
          ps = (if \<not> in_True_False (wait_val wt)
                then ps(''waitIndex'' \<mapsto> PInt (int_of_wait wt), ''wait'' \<mapsto> PBool True)
                else ps)
      in Client_request e servers ''GET'' path ps w)"

text \<open>
  \<^verbatim>\<open>Client.set\<close>. \<^verbatim>\<open>value\<close>, \<^verbatim>\<open>prev_value\<close> and \<^verbatim>\<open>ttl\<close> are Python values, \<open>PNone\<close>
  where the source has \<^verbatim>\<open>None\<close>.
\<close>

definition Client_set ::
  "env \<Rightarrow> string list \<Rightarrow> string \<Rightarrow> pyval \<Rightarrow> pyval \<Rightarrow> pyval \<Rightarrow> io
     \<Rightarrow> ((error + jobj) \<times> io) option"
where
  "Client_set e servers path val prev_value ttl w =
     (let ps = Map.empty;
          ps = (if ttl \<noteq> PNone then ps(''ttl'' \<mapsto> ttl) else ps);
          ps = (if in_True_False prev_value then ps(''prevExist'' \<mapsto> prev_value)
                else if is_basestring prev_value then ps(''prevValue'' \<mapsto> prev_value)
                else if prev_value \<noteq> PNone then ps(''prevIndex'' \<mapsto> prev_value)
                else ps)
      in if val = PNone then
           (if ttl \<noteq> PNone
            then Some (Inl (TypeError ''Cannot combine a delete with a ttl''), w)
            else if ''prevExist'' \<in> dom ps
            then Some (Inl (TypeError
                   ''Cannot combine a delete with prev_value = True or False''), w)
            else Client_request e servers ''DELETE'' path ps w)
         else Client_request e servers ''PUT'' path (ps(''value'' \<mapsto> val)) w)"

text \<open>
  Subscripting a decoded JSON value with a string key, as \<^verbatim>\<open>result['node']\<close> does: a
  dictionary without the key raises \<^verbatim>\<open>KeyError\<close>, every other value raises
  \<^verbatim>\<open>TypeError\<close>. Where a JSON object repeats a name, Python's decoder keeps the last.
\<close>

fun subscript :: "json \<Rightarrow> string \<Rightarrow> error + json" where
  "subscript (JObj kvs) k =
     (case map_of (rev kvs) k of None \<Rightarrow> Inl (KeyError k) | Some v \<Rightarrow> Inr v)"
| "subscript v k = Inl (TypeError ''not subscriptable with a string'')"

text \<open>\<^verbatim>\<open>v + 1\<close> on a decoded JSON value: defined on integers and, in Python, on booleans.\<close>

fun plus_one :: "json \<Rightarrow> error + int" where
  "plus_one (JInt i) = Inr (i + 1)"
| "plus_one (JBool b) = Inr ((if b then 1 else 0) + 1)"
| "plus_one v = Inl (TypeError ''unsupported operand type(s) for +'')"

text \<open>
  \<^verbatim>\<open>Client.watch_iter\<close> is a generator. Between two demands it is in one of three states:
  created and not yet started, suspended at \<^verbatim>\<open>yield result\<close>, or finished by an
  exception.
\<close>

datatype watch_gen = Fresh | Yielded jobj | Finished

text \<open>
  The code a demand runs before it calls \<^verbatim>\<open>self.get\<close>: line 131 in a fresh generator,
  line 135 in a suspended one. The result is the \<^verbatim>\<open>index\<close> passed as \<^verbatim>\<open>wait\<close>.
\<close>

fun next_index :: "watch_gen \<Rightarrow> error + wait" where
  "next_index Fresh = Inr (WBool False)"
| "next_index (Yielded result) =
     (case subscript (JObj result) ''node'' of
        Inl ex \<Rightarrow> Inl ex
      | Inr node \<Rightarrow>
          (case subscript node ''modifiedIndex'' of
             Inl ex \<Rightarrow> Inl ex
           | Inr m \<Rightarrow>
               (case plus_one m of
                  Inl ex \<Rightarrow> Inl ex
                | Inr i \<Rightarrow> Inr (WInt i))))"
| "next_index Finished = Inl StopIteration"

text \<open>
  One demand on the generator (\<^verbatim>\<open>next()\<close>): the value yielded or the exception raised,
  and the generator's new state.
\<close>

definition watch_iter_next ::
  "env \<Rightarrow> string list \<Rightarrow> string \<Rightarrow> watch_gen \<Rightarrow> io
     \<Rightarrow> ((error + jobj) \<times> watch_gen \<times> io) option"
where
  "watch_iter_next e servers path g w =
     (case next_index g of
        Inl ex \<Rightarrow> Some (Inl ex, Finished, w)
      | Inr index \<Rightarrow>
          (case Client_get e servers path index w of
             None \<Rightarrow> None
           | Some (Inl ex, w') \<Rightarrow> Some (Inl ex, Finished, w')
           | Some (Inr result, w') \<Rightarrow> Some (Inr result, Yielded result, w')))"

section \<open>election.py: the election\<close>

text \<open>
  The election task runs on eventlet's cooperative scheduler: it runs without
  interruption from one blocking call to the next, and the watchdog's callback can run
  only while the task is blocked. The model is a transition system whose states are the
  instance between two such moments, and whose events are the completions of the blocking
  calls and the firing of a timer. Durations are not compared: a pending timer may fire
  at any of these moments.
\<close>

text \<open>The blocking call in which the task is suspended.\<close>

datatype call =
    Set_call string pyval pyval pyval
  | Get_call string wait
  | Sleep_call int

text \<open>
  Where \<^verbatim>\<open>_run\<close>, the task that \<^verbatim>\<open>run()\<close> spawns, is suspended: not yet started, in
  \<^verbatim>\<open>_write(False)\<close> of line 65, in
  \<^verbatim>\<open>eventlet.sleep\<close> of line 69, in \<^verbatim>\<open>_write(self.identifier)\<close> of line 99, in the
  \<^verbatim>\<open>get\<close> of \<^verbatim>\<open>watch_iter\<close> (with its \<^verbatim>\<open>wait\<close> argument), in \<^verbatim>\<open>_write(False)\<close> of
  line 105 (with the event the generator is suspended at), or ended by an exception.
\<close>

datatype pc =
    Not_started
  | Initial_write
  | Sleeping
  | Renew_write
  | Watch_get wait
  | Acquire_write jobj
  | Died error

text \<open>
  An instance and the timers of the hub. \<open>timers\<close> maps the handle of each pending
  \<^verbatim>\<open>spawn_after\<close> to its delay; \<open>watchdog\<close> is \<^verbatim>\<open>self._watchdog\<close>, a handle or
  \<^verbatim>\<open>None\<close>; \<open>warnings\<close> is what was logged at warning level.
\<close>

record election =
  path :: string
  servers :: "string list"
  ttl :: int
  interval :: int
  "identifier" :: string
  is_leader :: bool
  watchdog :: "nat option"
  task :: pc
  timers :: "nat \<rightharpoonup> int"
  next_timer :: nat
  warnings :: "string list"

text \<open>
  \<^verbatim>\<open>Election.__init__\<close> and the class attributes. \<open>uuid4\<close> is the value of
  \<^verbatim>\<open>str(uuid.uuid4())\<close>.
\<close>

definition Election_init ::
  "string \<Rightarrow> string list option \<Rightarrow> int option \<Rightarrow> int option \<Rightarrow> string option \<Rightarrow> string
     \<Rightarrow> election"
where
  "Election_init p servers_arg ttl_arg interval_arg identifier_arg uuid4 =
     \<lparr>path = p,
      servers = (case servers_arg of None \<Rightarrow> [''http://localhost:4001''] | Some x \<Rightarrow> x),
      ttl = (case ttl_arg of None \<Rightarrow> 15 | Some x \<Rightarrow> x),
      interval = (case interval_arg of None \<Rightarrow> 5 | Some x \<Rightarrow> x),
      identifier = (case identifier_arg of
                      None \<Rightarrow> uuid4
                    | Some x \<Rightarrow> if x = [] then uuid4 else x),
      is_leader = False,
      watchdog = None,
      task = Not_started,
      timers = Map.empty,
      next_timer = 0,
      warnings = []\<rparr>"

definition priv_on_watchdog :: "election \<Rightarrow> election" where
  "priv_on_watchdog s =
     s\<lparr>warnings := warnings s @
          [''Setting is_leader false after {} seconds - is something preventing renewal?''],
       is_leader := False\<rparr>"

definition priv_set_leader :: "bool \<Rightarrow> election \<Rightarrow> election" where
  "priv_set_leader v s =
     (let s1 = (case watchdog s of
                  Some h \<Rightarrow> s\<lparr>timers := (timers s)(h := None), watchdog := None\<rparr>
                | None \<Rightarrow> s);
          s2 = s1\<lparr>is_leader := v\<rparr>
      in if v
         then s2\<lparr>timers := (timers s2)(next_timer s2 \<mapsto> ttl s2),
                 watchdog := Some (next_timer s2),
                 next_timer := next_timer s2 + 1\<rparr>
         else s2\<lparr>warnings := warnings s2 @ [''We are no longer the leader!'']\<rparr>)"

text \<open>
  \<^verbatim>\<open>_write(old)\<close> in two halves: the call of \<^verbatim>\<open>self.conn.set\<close> it blocks in, and what
  it makes of the outcome of that call (line 91 to 96).
\<close>

definition write_call :: "pyval \<Rightarrow> election \<Rightarrow> call" where
  "write_call old s = Set_call (path s) (PStr (identifier s)) old (PInt (ttl s))"

fun priv_write :: "error + jobj \<Rightarrow> error + bool" where
  "priv_write (Inr response) = Inr True"
| "priv_write (Inl (EtcdException ex)) = Inr False"
| "priv_write (Inl ex) = Inl ex"

definition blocked_in :: "election \<Rightarrow> call option" where
  "blocked_in s =
     (case task s of
        Not_started \<Rightarrow> None
      | Initial_write \<Rightarrow> Some (write_call (PBool False) s)
      | Sleeping \<Rightarrow> Some (Sleep_call (interval s))
      | Renew_write \<Rightarrow> Some (write_call (PStr (identifier s)) s)
      | Watch_get index \<Rightarrow> Some (Get_call (path s) index)
      | Acquire_write result \<Rightarrow> Some (write_call (PBool False) s)
      | Died ex \<Rightarrow> None)"

text \<open>
  A demand of the \<^verbatim>\<open>for\<close> loop of \<^verbatim>\<open>_try_become_leader\<close> on the generator, up to the
  \<^verbatim>\<open>get\<close> it blocks in.
\<close>

definition demand :: "watch_gen \<Rightarrow> election \<Rightarrow> election" where
  "demand g s =
     (case next_index g of
        Inl ex \<Rightarrow> s\<lparr>task := Died ex\<rparr>
      | Inr index \<Rightarrow> s\<lparr>task := Watch_get index\<rparr>)"

text \<open>The head of the \<^verbatim>\<open>while True\<close> loop of \<^verbatim>\<open>_run\<close>, up to the next blocking call.\<close>

definition loop_head :: "election \<Rightarrow> election" where
  "loop_head s = (if is_leader s then s\<lparr>task := Sleeping\<rparr> else demand Fresh s)"

text \<open>The body of the \<^verbatim>\<open>for\<close> loop of \<^verbatim>\<open>_try_become_leader\<close> on one event, line 104.\<close>

definition on_event :: "jobj \<Rightarrow> election \<Rightarrow> election" where
  "on_event event s =
     (case subscript (JObj event) ''action'' of
        Inl ex \<Rightarrow> s\<lparr>task := Died ex\<rparr>
      | Inr action \<Rightarrow>
          if action \<noteq> JStr ''delete'' \<and> action \<noteq> JStr ''expire''
          then demand (Yielded event) s
          else s\<lparr>task := Acquire_write event\<rparr>)"

datatype event =
    Starts
  | Set_returns "error + jobj"
  | Wakes
  | Get_returns "error + jobj"
  | Timer_fires nat

text \<open>
  One transition: the event, and the code that runs until the task blocks again.
  \<open>None\<close> is an event that cannot happen in the state. The only \<^verbatim>\<open>spawn_after\<close> of the
  class is the one of \<^verbatim>\<open>_set_leader\<close>, so the callback of every timer is
  \<^verbatim>\<open>_on_watchdog\<close>. An exception that \<^verbatim>\<open>_write\<close> or the watch does not catch ends the
  task.
\<close>

fun step :: "event \<Rightarrow> pc \<Rightarrow> election \<Rightarrow> election option" where
  "step Starts Not_started s = Some (s\<lparr>task := Initial_write\<rparr>)"
| "step (Set_returns r) Initial_write s =
     (case priv_write r of
        Inl ex \<Rightarrow> Some (s\<lparr>task := Died ex\<rparr>)
      | Inr success \<Rightarrow>
          Some (loop_head (if success then priv_set_leader True s else s)))"
| "step Wakes Sleeping s = Some (s\<lparr>task := Renew_write\<rparr>)"
| "step (Set_returns r) Renew_write s =
     (case priv_write r of
        Inl ex \<Rightarrow> Some (s\<lparr>task := Died ex\<rparr>)
      | Inr success \<Rightarrow> Some (loop_head (priv_set_leader success s)))"
| "step (Get_returns r) (Watch_get index) s =
     (case r of
        Inl ex \<Rightarrow> Some (s\<lparr>task := Died ex\<rparr>)
      | Inr result \<Rightarrow> Some (on_event result s))"
| "step (Set_returns r) (Acquire_write event) s =
     (case priv_write r of
        Inl ex \<Rightarrow> Some (s\<lparr>task := Died ex\<rparr>)
      | Inr success \<Rightarrow>
          if \<not> success then Some (demand (Yielded event) s)
          else Some (loop_head (priv_set_leader True s)))"
| "step (Timer_fires h) p s =
     (case timers s h of
        None \<Rightarrow> None
      | Some delay \<Rightarrow> Some (priv_on_watchdog (s\<lparr>timers := (timers s)(h := None)\<rparr>)))"
| "step ev p s = None"

definition next_state :: "event \<Rightarrow> election \<Rightarrow> election option" where
  "next_state ev s = step ev (task s) s"

text \<open>
  What a blocking call of the task is in the client: \<^verbatim>\<open>self.conn\<close> is a client on the
  servers of the instance. A sleep is not a call of the client.
\<close>

fun perform :: "env \<Rightarrow> election \<Rightarrow> call \<Rightarrow> io \<Rightarrow> ((error + jobj) \<times> io) option" where
  "perform e s (Set_call p v old t) w = Client_set e (servers s) p v old t w"
| "perform e s (Get_call p wt) w = Client_get e (servers s) p wt w"
| "perform e s (Sleep_call d) w = None"

text \<open>A run: the events of a list happen one after the other.\<close>

fun run_events :: "event list \<Rightarrow> election \<Rightarrow> election option" where
  "run_events [] s = Some s"
| "run_events (ev # evs) s =
     (case next_state ev s of None \<Rightarrow> None | Some s' \<Rightarrow> run_events evs s')"

text \<open>
  The election on the client: the blocking call of the task is made on the given network,
  and its outcome is the event that resumes the task. \<open>None\<close> where the call never
  returns, or where the task is not blocked.
\<close>

definition complete :: "env \<Rightarrow> election \<Rightarrow> io \<Rightarrow> (election \<times> io) option" where
  "complete e s w =
     (case blocked_in s of
        None \<Rightarrow> None
      | Some (Sleep_call d) \<Rightarrow>
          (case next_state Wakes s of None \<Rightarrow> None | Some s' \<Rightarrow> Some (s', w))
      | Some (Set_call p v old t) \<Rightarrow>
          (case perform e s (Set_call p v old t) w of
             None \<Rightarrow> None
           | Some (r, w') \<Rightarrow>
               (case next_state (Set_returns r) s of
                  None \<Rightarrow> None
                | Some s' \<Rightarrow> Some (s', w')))
      | Some (Get_call p wt) \<Rightarrow>
          (case perform e s (Get_call p wt) w of
             None \<Rightarrow> None
           | Some (r, w') \<Rightarrow>
               (case next_state (Get_returns r) s of
                  None \<Rightarrow> None
                | Some s' \<Rightarrow> Some (s', w'))))"

text \<open>
  A watch event that \<^verbatim>\<open>_try_become_leader\<close> passes over: it has an action other than
  \<^verbatim>\<open>delete\<close> and \<^verbatim>\<open>expire\<close>, and the index that the generator reads on the demand that
  follows.
\<close>

definition passed_over :: "jobj \<Rightarrow> bool" where
  "passed_over ev =
     (case subscript (JObj ev) ''action'' of
        Inl ex \<Rightarrow> False
      | Inr a \<Rightarrow>
          a \<noteq> JStr ''delete'' \<and> a \<noteq> JStr ''expire''
          \<and> (case next_index (Yielded ev) of Inl ex \<Rightarrow> False | Inr i \<Rightarrow> True))"

text \<open>
  What holds of the timers in every state of a run: the only pending timer is the one
  \<^verbatim>\<open>_watchdog\<close> refers to, its delay is \<^verbatim>\<open>ttl\<close>, handles not yet given out are
  unused, and a leader has its watchdog pending.
\<close>

definition timers_ok :: "election \<Rightarrow> bool" where
  "timers_ok s \<longleftrightarrow>
     (\<forall>h. timers s h \<noteq> None \<longrightarrow> watchdog s = Some h \<and> timers s h = Some (ttl s))
     \<and> (\<forall>h. watchdog s = Some h \<longrightarrow> h < next_timer s)
     \<and> (is_leader s \<longrightarrow> (\<exists>h. watchdog s = Some h \<and> timers s h = Some (ttl s)))"

text \<open>
  The instance of the examples: the defaults of the class, the identifier \<^verbatim>\<open>me\<close>.
\<close>

definition candidate :: election where
  "candidate = Election_init ''lock'' None None None (Some ''me'') ''uuid''"

section \<open>The calls of a round\<close>

text \<open>
  The calls of \<^verbatim>\<open>requests.request\<close> that one request makes when it tries the given
  servers in order.
\<close>

definition logged :: "string \<Rightarrow> string \<Rightarrow> params \<Rightarrow> string list \<Rightarrow> http_call list" where
  "logged method p ps srvs =
     map (\<lambda>server. \<lparr>http_method = method, http_url = urljoin [server, ''v2'', ''keys'', p],
                     http_params = ps\<rparr>) srvs"

section \<open>Concrete environments\<close>

text \<open>A network on which no server can be contacted.\<close>

definition all_down :: env where
  "all_down = \<lparr>net = (\<lambda>k. ConnectionError), rand = (\<lambda>k. 1 / 2)\<rparr>"

text \<open>A network on which every call is answered with the same status and body.\<close>

definition answering :: "nat \<Rightarrow> jobj \<Rightarrow> env" where
  "answering status body = \<lparr>net = (\<lambda>k. Response status body), rand = (\<lambda>k. 1 / 2)\<rparr>"

text \<open>A network on which the first \<open>n\<close> calls fail to connect and the others are answered.\<close>

definition down_then :: "nat \<Rightarrow> nat \<Rightarrow> jobj \<Rightarrow> env" where
  "down_then n status body =
     \<lparr>net = (\<lambda>k. if k < n then ConnectionError else Response status body),
      rand = (\<lambda>k. 1 / 2)\<rparr>"

text \<open>Bodies the store sends: three rejections and a change event.\<close>

definition compare_failed :: jobj where
  "compare_failed =
     [(''errorCode'', JInt 101), (''message'', JStr ''Compare failed''),
      (''cause'', JStr ''[other != me]''), (''index'', JInt 7)]"

definition key_not_found :: jobj where
  "key_not_found =
     [(''errorCode'', JInt 100), (''message'', JStr ''Key not found''),
      (''cause'', JStr ''/lock''), (''index'', JInt 7)]"

definition node_exist :: jobj where
  "node_exist =
     [(''errorCode'', JInt 105), (''message'', JStr ''Key already exists''),
      (''cause'', JStr ''/lock''), (''index'', JInt 7)]"

definition change :: "string \<Rightarrow> int \<Rightarrow> jobj" where
  "change action i =
     [(''action'', JStr action),
      (''node'', JObj [(''key'', JStr ''/lock''), (''value'', JStr ''me''),
                       (''modifiedIndex'', JInt i), (''createdIndex'', JInt i)])]"

text \<open>
  The sleep durations within 20 percent of the retry interval: with the upper bound
  excluded, and with it included.
\<close>

definition jittered :: "real \<Rightarrow> bool" where
  "jittered d \<longleftrightarrow>
     CONNECT_RETRY_INTERVAL * (1 - 2 / 10) \<le> d \<and> d < CONNECT_RETRY_INTERVAL * (1 + 2 / 10)"

definition jittered_le :: "real \<Rightarrow> bool" where
  "jittered_le d \<longleftrightarrow>
     CONNECT_RETRY_INTERVAL * (1 - 2 / 10) \<le> d \<and> d \<le> CONNECT_RETRY_INTERVAL * (1 + 2 / 10)"

text \<open>
  A network on which the first two calls fail to connect and the third is answered,
  and on which \<^verbatim>\<open>random.random()\<close> returns its largest value.
\<close>

definition largest_draw :: env where
  "largest_draw =
     \<lparr>net = (\<lambda>k. if k < 2 then ConnectionError else Response 200 (change ''set'' 3)),
      rand = (\<lambda>k. 1 - 1 / 2 ^ 53)\<rparr>"

section \<open>Lemmas on floats and on the retry loop\<close>

text \<open>
  Rounding to an integer stays next to the floor, leaves integers as they are and is monotone.
\<close>

lemma rhe_lower: "\<lfloor>x\<rfloor> \<le> round_half_even x"
  by (simp add: round_half_even_def Let_def)

lemma rhe_upper: "round_half_even x \<le> \<lfloor>x\<rfloor> + 1"
  by (simp add: round_half_even_def Let_def)

lemma rhe_of_int [simp]: "round_half_even (of_int n) = n"
  by (simp add: round_half_even_def)

lemma rhe_mono:
  assumes "x \<le> y"
  shows "round_half_even x \<le> round_half_even y"
proof (cases "\<lfloor>x\<rfloor> = \<lfloor>y\<rfloor>")
  case True
  with assms show ?thesis
    by (auto simp: round_half_even_def Let_def)
next
  case False
  with assms have "\<lfloor>x\<rfloor> < \<lfloor>y\<rfloor>"
    using floor_mono [of x y] by linarith
  then have "round_half_even x \<le> \<lfloor>y\<rfloor>"
    using rhe_upper [of x] by linarith
  with rhe_lower [of y] show ?thesis by linarith
qed

lemma ulp_pos [simp]: "0 < ulp x"
  by (simp add: ulp_def)

lemma ulp_nonneg [simp]: "0 \<le> ulp x"
  by (simp add: ulp_def)

text \<open>
  The exponent of a number whose binade is known, and the bounds of a positive number by the powers of 2 around it.
\<close>

lemma exponent_eq:
  assumes "2 powr (of_int k) \<le> \<bar>x\<bar>" and "\<bar>x\<bar> < 2 powr (of_int k + 1)" and "- 1022 \<le> k"
  shows "exponent x = k"
proof -
  have "0 < \<bar>x\<bar>" using assms(1) by (smt (verit) powr_gt_zero)
  then have "\<lfloor>log 2 \<bar>x\<bar>\<rfloor> = k"
    using assms(1,2) by (simp add: floor_log_eq_powr_iff)
  with assms(3) show ?thesis by (simp add: exponent_def)
qed

lemma exponent_mono:
  assumes "0 < x" and "x \<le> y"
  shows "exponent x \<le> exponent y"
proof -
  have "log 2 \<bar>x\<bar> \<le> log 2 \<bar>y\<bar>" using assms by simp
  then have "\<lfloor>log 2 \<bar>x\<bar>\<rfloor> \<le> \<lfloor>log 2 \<bar>y\<bar>\<rfloor>" by (rule floor_mono)
  then show ?thesis by (simp add: exponent_def)
qed

lemma below_next_binade:
  assumes "0 < x"
  shows "x < 2 powr (of_int (exponent x) + 1)"
proof -
  have "x < 2 powr (of_int \<lfloor>log 2 x\<rfloor> + 1)"
    using assms floor_log_eq_powr_iff [of x 2 "\<lfloor>log 2 x\<rfloor>"] by simp
  also have "\<dots> \<le> 2 powr (of_int (exponent x) + 1)"
    using assms by (simp add: exponent_def)
  finally show ?thesis .
qed

lemma above_binade:
  assumes "0 < x" and "- 1022 < exponent x"
  shows "2 powr (of_int (exponent x)) \<le> x"
proof -
  from assms(2) have "exponent x = \<lfloor>log 2 x\<rfloor>"
    using assms(1) by (simp add: exponent_def max_def split: if_splits)
  then show ?thesis
    using assms(1) floor_log_eq_powr_iff [of x 2 "\<lfloor>log 2 x\<rfloor>"] by simp
qed

text \<open>
  \<open>fl\<close> is monotone: within a binade because rounding to an integer is, across binades because the powers of 2 between them are values of the format.
\<close>

lemma scale_ulp: "2 powr k * ulp x = 2 powr (k + of_int (exponent x) - 52)"
  by (simp add: ulp_def algebra_simps flip: powr_add)

lemma fl_nonneg: "0 \<le> x \<Longrightarrow> 0 \<le> fl x"
proof -
  assume "0 \<le> x"
  then have "0 \<le> \<bar>x\<bar> / ulp x" by simp
  then have "0 \<le> \<lfloor>\<bar>x\<bar> / ulp x\<rfloor>" by simp
  with rhe_lower [of "\<bar>x\<bar> / ulp x"] have "0 \<le> round_half_even (\<bar>x\<bar> / ulp x)" by linarith
  with \<open>0 \<le> x\<close> show ?thesis by (simp add: fl_def sgn_real_def)
qed

lemma fl_pos_eq: "0 < x \<Longrightarrow> fl x = of_int (round_half_even (x / ulp x)) * ulp x"
  by (simp add: fl_def)

lemma fl_below_next_binade:
  assumes "0 < x"
  shows "fl x \<le> 2 powr (of_int (exponent x) + 1)"
proof -
  have "x / ulp x < 2 powr (of_int (exponent x) + 1) / ulp x"
    by (rule divide_strict_right_mono) (use below_next_binade [OF assms] in simp_all)
  also have "2 powr (of_int (exponent x) + 1) / ulp x = 2 powr 53"
    by (simp add: ulp_def flip: powr_diff)
  also have "\<dots> = of_int (2 ^ 53)" by simp
  finally have "round_half_even (x / ulp x) \<le> 2 ^ 53"
    using rhe_mono [of "x / ulp x" "of_int (2 ^ 53)"] by (simp del: of_int_power of_int_numeral)
  then have "of_int (round_half_even (x / ulp x)) * ulp x \<le> of_int (2 ^ 53) * ulp x"
    by (intro mult_right_mono) (simp_all del: of_int_power)
  also have "of_int (2 ^ 53) * ulp x = 2 powr 53 * ulp x" by simp
  also have "\<dots> = 2 powr (53 + of_int (exponent x) - 52)" by (rule scale_ulp)
  also have "\<dots> = 2 powr (of_int (exponent x) + 1)" by (simp add: algebra_simps)
  finally show ?thesis using assms by (simp add: fl_pos_eq)
qed

lemma fl_above_binade:
  assumes "0 < x" and "- 1022 < exponent x"
  shows "2 powr (of_int (exponent x)) \<le> fl x"
proof -
  have "2 powr (of_int (exponent x)) / ulp x \<le> x / ulp x"
    by (rule divide_right_mono) (use above_binade [OF assms] in simp_all)
  moreover have "2 powr (of_int (exponent x)) / ulp x = 2 powr 52"
    by (simp add: ulp_def flip: powr_diff)
  moreover have "(2::real) powr 52 = of_int (2 ^ 52)" by simp
  ultimately have rhe: "2 ^ 52 \<le> round_half_even (x / ulp x)"
    using rhe_mono [of "of_int (2 ^ 52)" "x / ulp x"] by (simp del: of_int_power of_int_numeral)
  have "2 powr (of_int (exponent x)) = 2 powr (52 + of_int (exponent x) - 52)" by simp
  also have "\<dots> = 2 powr 52 * ulp x" by (rule scale_ulp [symmetric])
  also have "\<dots> = of_int (2 ^ 52) * ulp x" by simp
  also have "\<dots> \<le> of_int (round_half_even (x / ulp x)) * ulp x"
    by (intro mult_right_mono) (use rhe in \<open>simp_all del: of_int_power\<close>)
  finally show ?thesis using assms by (simp add: fl_pos_eq)
qed

lemma fl_mono_pos:
  assumes "0 < x" and "x \<le> y"
  shows "fl x \<le> fl y"
proof (cases "exponent x = exponent y")
  case True
  then have u: "ulp x = ulp y" by (simp add: ulp_def)
  have "x / ulp y \<le> y / ulp y"
    by (rule divide_right_mono) (use assms in simp_all)
  then have "round_half_even (x / ulp y) \<le> round_half_even (y / ulp y)" by (rule rhe_mono)
  then have "of_int (round_half_even (x / ulp y)) * ulp y
             \<le> of_int (round_half_even (y / ulp y)) * ulp y"
    by (intro mult_right_mono) simp_all
  with assms u show ?thesis by (simp add: fl_pos_eq)
next
  case False
  with exponent_mono [OF assms] have lt: "exponent x < exponent y" by simp
  have "- 1022 \<le> exponent x" by (simp add: exponent_def)
  with lt have big: "- 1022 < exponent y" by simp
  have "fl x \<le> 2 powr (of_int (exponent x) + 1)"
    using assms(1) by (rule fl_below_next_binade)
  also have "\<dots> \<le> 2 powr (of_int (exponent y))"
    using lt by simp
  also have "\<dots> \<le> fl y"
    using assms big by (intro fl_above_binade) simp_all
  finally show ?thesis .
qed

lemma fl_minus: "fl (- x) = - fl x"
  by (simp add: fl_def ulp_def exponent_def sgn_real_def)

lemma fl_zero [simp]: "fl 0 = 0"
  by (simp add: fl_def)

lemma fl_mono:
  assumes "x \<le> y"
  shows "fl x \<le> fl y"
proof -
  consider "0 < x" | "x \<le> 0" "0 \<le> y" | "y < 0" by linarith
  then show ?thesis
  proof cases
    case 1
    with assms show ?thesis by (intro fl_mono_pos)
  next
    case 2
    then have "0 \<le> fl (- x)" "0 \<le> fl y" by (simp_all add: fl_nonneg)
    then show ?thesis by (simp add: fl_minus)
  next
    case 3
    with assms have "fl (- y) \<le> fl (- x)" by (intro fl_mono_pos) simp_all
    then show ?thesis by (simp add: fl_minus)
  qed
qed

text \<open>
  \<open>fl\<close> at a number whose binade is known, and at the numbers that bound the sleep.
\<close>

lemma fl_eval:
  assumes "2 powr (of_int k) \<le> \<bar>x\<bar>" and "\<bar>x\<bar> < 2 powr (of_int k + 1)" and "- 1022 \<le> k"
  shows "fl x = sgn x * (of_int (round_half_even (\<bar>x\<bar> / 2 powr (of_int (k - 52))))
                          * 2 powr (of_int (k - 52)))"
  by (simp add: fl_def ulp_def exponent_eq [OF assms])

lemma factor_eq: "CONNECT_RETRY_RANDOM_FACTOR = 3602879701896397 / 2 ^ 54"
  unfolding CONNECT_RETRY_RANDOM_FACTOR_def
  by (subst fl_eval [where k = "- 3"])
     (simp_all add: powr_neg_numeral round_half_even_def Let_def)

lemmas fl_numeral = powr_neg_numeral round_half_even_def Let_def

lemma fl_factor: "fl (3602879701896397 / 2 ^ 54) = 3602879701896397 / 2 ^ 54"
  by (subst fl_eval [where k = "- 3"]) (simp_all add: fl_numeral)

lemma fl_2factor: "fl (3602879701896397 / 2 ^ 53) = 3602879701896397 / 2 ^ 53"
  by (subst fl_eval [where k = "- 2"]) (simp_all add: fl_numeral)

lemma fl_5factor: "fl (5 * (3602879701896397 / 2 ^ 54)) = 1"
  by (subst fl_eval [where k = 0]) (simp_all add: fl_numeral)

lemma fl_4: "fl 4 = 4"
  by (subst fl_eval [where k = 2]) (simp_all add: fl_numeral)

lemma fl_6: "fl 6 = 6"
  by (subst fl_eval [where k = 2]) (simp_all add: fl_numeral)

text \<open>
  The bounds of the sleep for every draw, and its value at the largest draw and at one half.
\<close>

lemma retry_interval_bounds:
  assumes "0 \<le> r" and "r \<le> 1"
  shows "4 \<le> retry_interval r \<and> retry_interval r \<le> 6"
proof -
  let ?F = "3602879701896397 / 2 ^ 54 :: real"
  define t1 where "t1 = fl (r * ?F)"
  define t2 where "t2 = fl (t1 * 2)"
  define t3 where "t3 = fl (t2 - ?F)"
  define t4 where "t4 = fl (5 * t3)"
  have d: "retry_interval r = fl (5 + t4)"
    by (simp add: retry_interval_def CONNECT_RETRY_INTERVAL_def factor_eq
        t1_def t2_def t3_def t4_def)
  have "0 \<le> r * ?F" "r * ?F \<le> ?F" using assms by simp_all
  then have 1: "0 \<le> t1" "t1 \<le> ?F"
    unfolding t1_def using fl_mono [of 0 "r * ?F"] fl_mono [of "r * ?F" ?F] fl_factor
    by simp_all
  then have "0 \<le> t1 * 2" "t1 * 2 \<le> 3602879701896397 / 2 ^ 53" by simp_all
  then have 2: "0 \<le> t2" "t2 \<le> 2 * ?F"
    unfolding t2_def
    using fl_mono [of 0 "t1 * 2"] fl_mono [of "t1 * 2" "3602879701896397 / 2 ^ 53"] fl_2factor
    by simp_all
  then have "- ?F \<le> t2 - ?F" "t2 - ?F \<le> ?F" by simp_all
  then have 3: "- ?F \<le> t3" "t3 \<le> ?F"
    unfolding t3_def
    using fl_mono [of "- ?F" "t2 - ?F"] fl_mono [of "t2 - ?F" ?F] fl_factor fl_minus [of ?F]
    by simp_all
  then have "- (5 * ?F) \<le> 5 * t3" "5 * t3 \<le> 5 * ?F" by simp_all
  then have 4: "- 1 \<le> t4" "t4 \<le> 1"
    unfolding t4_def
    using fl_mono [of "- (5 * ?F)" "5 * t3"] fl_mono [of "5 * t3" "5 * ?F"] fl_5factor
      fl_minus [of "5 * ?F"]
    by simp_all
  then have "4 \<le> 5 + t4" "5 + t4 \<le> 6" by simp_all
  then have "4 \<le> fl (5 + t4)" "fl (5 + t4) \<le> 6"
    using fl_mono [of 4 "5 + t4"] fl_mono [of "5 + t4" 6] fl_4 fl_6 by simp_all
  with d show ?thesis by simp
qed

lemma retry_interval_at_top: "retry_interval (1 - 1 / 2 ^ 53) = 6"
proof -
  let ?F = "3602879701896397 / 2 ^ 54 :: real"
  have 1: "fl ((1 - 1 / 2 ^ 53) * ?F) = 7205759403792793 / 2 ^ 55"
    by (subst fl_eval [where k = "- 3"]) (simp_all add: fl_numeral)
  have 2: "fl (7205759403792793 / 2 ^ 55 * 2) = 7205759403792793 / 2 ^ 54"
    by (subst fl_eval [where k = "- 2"]) (simp_all add: fl_numeral)
  have 3: "fl (7205759403792793 / 2 ^ 54 - ?F) = 3602879701896396 / 2 ^ 54"
    by (subst fl_eval [where k = "- 3"]) (simp_all add: fl_numeral)
  have 4: "fl (5 * (3602879701896396 / 2 ^ 54)) = 1 - 1 / 2 ^ 52"
    by (subst fl_eval [where k = "- 1"]) (simp_all add: fl_numeral)
  have 5: "fl (5 + (1 - 1 / 2 ^ 52)) = 6"
    by (subst fl_eval [where k = 2]) (simp_all add: fl_numeral)
  show ?thesis
    unfolding retry_interval_def CONNECT_RETRY_INTERVAL_def factor_eq Let_def 1 2 3 4 5 ..
qed

lemma retry_interval_at_half: "retry_interval (1 / 2) = 5"
proof -
  let ?F = "3602879701896397 / 2 ^ 54 :: real"
  have 1: "fl (1 / 2 * ?F) = 3602879701896397 / 2 ^ 55"
    by (subst fl_eval [where k = "- 4"]) (simp_all add: fl_numeral)
  have 2: "fl (3602879701896397 / 2 ^ 55 * 2) = ?F"
    by (subst fl_eval [where k = "- 3"]) (simp_all add: fl_numeral)
  have 3: "fl (?F - ?F) = 0" by simp
  have 4: "fl (5 * 0) = 0" by simp
  have 5: "fl (5 + 0) = 5"
    by (subst fl_eval [where k = 2]) (simp_all add: fl_numeral)
  show ?thesis
    unfolding retry_interval_def CONNECT_RETRY_INTERVAL_def factor_eq Let_def 1 2 3 4 5 ..
qed

text \<open>
  A round skips the servers that cannot be contacted.
\<close>

lemma try_servers_unreachable:
  "\<forall>i < length pre. net e (length (calls w) + i) = ConnectionError \<Longrightarrow>
   try_servers e meth p ps (pre @ rest) w =
   try_servers e meth p ps rest (w\<lparr>calls := calls w @ logged meth p ps pre\<rparr>)"
proof (induction pre arbitrary: w)
  case Nil
  then show ?case by (simp add: logged_def)
next
  case (Cons s pre)
  have first: "net e (length (calls w)) = ConnectionError"
    using Cons.prems by force
  let ?w' = "w\<lparr>calls := calls w @ logged meth p ps [s]\<rparr>"
  have later: "\<forall>i < length pre. net e (length (calls ?w') + i) = ConnectionError"
  proof (intro allI impI)
    fix i assume "i < length pre"
    then have "net e (length (calls w) + Suc i) = ConnectionError"
      using Cons.prems by auto
    then show "net e (length (calls ?w') + i) = ConnectionError"
      by (simp add: logged_def)
  qed
  show ?case
    using first Cons.IH [OF later] by (simp add: logged_def)
qed

lemma round_all_unreachable:
  assumes "\<forall>i < length srvs. net e (length (calls w) + i) = ConnectionError"
  shows "try_servers e meth p ps srvs w =
         (None, w\<lparr>calls := calls w @ logged meth p ps srvs\<rparr>)"
proof -
  have "try_servers e meth p ps (srvs @ []) w =
        try_servers e meth p ps [] (w\<lparr>calls := calls w @ logged meth p ps srvs\<rparr>)"
    using assms by (rule try_servers_unreachable)
  then show ?thesis by simp
qed

text \<open>
  The loop: it returns only if some call connects, it sleeps after a round without an answer, and it returns what the first answer makes of the call.
\<close>

lemma retry_rounds_Some_reachable:
  "retry_rounds e meth p ps srvs w = Some y \<Longrightarrow> \<exists>k. net e k \<noteq> ConnectionError"
proof (induction rule: retry_rounds.raw_induct [rotated 1, consumes 1])
  case (1 rr e meth p ps srvs w y)
  show ?case
  proof (rule ccontr)
    assume "\<not> (\<exists>k. net e k \<noteq> ConnectionError)"
    then have down: "\<forall>k. net e k = ConnectionError" by simp
    then have "try_servers e meth p ps srvs w =
               (None, w\<lparr>calls := calls w @ logged meth p ps srvs\<rparr>)"
      by (intro round_all_unreachable) simp
    with 1(2) obtain w' where "rr e meth p ps srvs w' = Some y" by auto
    from 1(1) [OF this] down show False by simp
  qed
qed

lemma retry_rounds_never_returns:
  assumes "\<forall>k. net e k = ConnectionError"
  shows "retry_rounds e meth p ps srvs w = None"
  using assms retry_rounds_Some_reachable [of e meth p ps srvs w]
  by (cases "retry_rounds e meth p ps srvs w") auto

lemma round_then_retry:
  assumes "\<forall>i < length srvs. net e (length (calls w) + i) = ConnectionError"
  shows "retry_rounds e meth p ps srvs w =
         retry_rounds e meth p ps srvs
           (w\<lparr>calls := calls w @ logged meth p ps srvs,
              slept := slept w @ [retry_interval (rand e (length (slept w)))]\<rparr>)"
  by (subst retry_rounds.simps) (simp add: round_all_unreachable [OF assms])

lemma retry_rounds_answered:
  assumes "\<forall>i < length pre. net e (length (calls w) + i) = ConnectionError"
      and "net e (length (calls w) + length pre) = Response status body"
  shows "retry_rounds e meth p ps (pre @ server # rest) w =
         Some (handle_response status body,
               w\<lparr>calls := calls w @ logged meth p ps (pre @ [server])\<rparr>)"
  by (subst retry_rounds.simps)
     (simp add: try_servers_unreachable [OF assms(1)] assms(2) logged_def)

lemma try_servers_slept:
  "slept (snd (try_servers e meth p ps srvs w)) = slept w"
  by (induction srvs arbitrary: w) (simp_all add: Let_def split: http_result.split)

lemma jittered_le_retry_interval:
  "0 \<le> r \<Longrightarrow> r < 1 \<Longrightarrow> jittered_le (retry_interval r)"
  using retry_interval_bounds [of r] by (simp add: jittered_le_def CONNECT_RETRY_INTERVAL_def)

lemma retry_rounds_slept_bounds:
  assumes "retry_rounds e meth p ps srvs w = Some y"
      and "\<forall>k. 0 \<le> rand e k \<and> rand e k < 1"
      and "\<forall>d \<in> set (slept w). jittered_le d"
  shows "\<forall>d \<in> set (slept (snd y)). jittered_le d"
  using assms
proof (induction rule: retry_rounds.raw_induct [rotated 1, consumes 1])
  case (1 rr e meth p ps srvs w y)
  obtain res w1 where round: "try_servers e meth p ps srvs w = (res, w1)"
    by (cases "try_servers e meth p ps srvs w")
  have same: "slept w1 = slept w"
    using try_servers_slept [of e meth p ps srvs w] round by simp
  show ?case
  proof (cases res)
    case (Some r0)
    with 1(2) round have "y = (r0, w1)" by simp
    with same 1(4) show ?thesis by simp
  next
    case None
    let ?w2 = "w1\<lparr>slept := slept w1 @ [retry_interval (rand e (length (slept w1)))]\<rparr>"
    from None 1(2) round have again: "rr e meth p ps srvs ?w2 = Some y" by simp
    have "jittered_le (retry_interval (rand e (length (slept w1))))"
      using 1(3) by (intro jittered_le_retry_interval) auto
    with same 1(4) have "\<forall>d \<in> set (slept ?w2). jittered_le d" by simp
    from 1(1) [OF again 1(3) this] show ?thesis .
  qed
qed

lemma answering_net [simp]: "net (answering status body) k = Response status body"
  by (simp add: answering_def)

lemma request_first_server:
  assumes "net e (length (calls w)) = Response status body"
  shows "Client_request e (server # rest) meth p ps w =
         Some (handle_response status body,
               w\<lparr>calls := calls w @ logged meth p (bool_tokens ps) [server]\<rparr>)"
  using retry_rounds_answered [of "[]" e w status body meth p "bool_tokens ps" server rest] assms
  by (simp add: Client_request_def)

text \<open>
  The parameters after \<^verbatim>\<open>request\<close> has replaced the booleans.
\<close>

lemma bool_tokens_upd:
  "bool_tokens (m(k \<mapsto> v)) =
   (bool_tokens m)(k \<mapsto> (if in_True_False v
                            then PStr (if truthy v then ''true'' else ''false'') else v))"
  by (auto simp: bool_tokens_def fun_eq_iff)

lemma bool_tokens_empty: "bool_tokens Map.empty = Map.empty"
  by (simp add: bool_tokens_def fun_eq_iff)

lemma bool_tokens_None: "m k = None \<Longrightarrow> bool_tokens m k = None"
  by (simp add: bool_tokens_def)

lemma down_then_run:
  "Client_request (down_then 2 200 (change ''set'' 3)) [''http://a'', ''http://b'']
     ''GET'' ''lock'' Map.empty io0
   = Some (Inr (change ''set'' 3),
           \<lparr>calls = logged ''GET'' ''lock'' Map.empty
                      [''http://a'', ''http://b'', ''http://a''],
            slept = [5]\<rparr>)"
proof -
  let ?e = "down_then 2 200 (change ''set'' 3)"
  let ?w1 = "io0\<lparr>calls := calls io0 @ logged ''GET'' ''lock'' Map.empty [''http://a'', ''http://b''],
                 slept := slept io0 @ [retry_interval (rand ?e (length (slept io0)))]\<rparr>"
  have "retry_rounds ?e ''GET'' ''lock'' Map.empty [''http://a'', ''http://b''] io0 =
        retry_rounds ?e ''GET'' ''lock'' Map.empty [''http://a'', ''http://b''] ?w1"
    by (rule round_then_retry) (simp add: down_then_def io0_def)
  also have "\<dots> = Some (handle_response 200 (change ''set'' 3),
                 ?w1\<lparr>calls := calls ?w1 @ logged ''GET'' ''lock'' Map.empty ([] @ [''http://a''])\<rparr>)"
    using retry_rounds_answered [of "[]" ?e ?w1 200 "change ''set'' 3" "''GET''" "''lock''"
        Map.empty "''http://a''" "[''http://b'']"]
    by (simp add: down_then_def io0_def logged_def)
  finally show ?thesis
    by (simp add: Client_request_def bool_tokens_empty handle_response_def raise_for_status_def
        change_def io0_def logged_def retry_interval_at_half down_then_def)
qed

section \<open>Lemmas on the election\<close>

text \<open>
  When \<^verbatim>\<open>_write\<close> returns \<^verbatim>\<open>True\<close> and when \<^verbatim>\<open>False\<close>, and what changes \<^verbatim>\<open>is_leader\<close>.
\<close>

lemma priv_write_True: "priv_write r = Inr True \<longleftrightarrow> (\<exists>response. r = Inr response)"
  by (cases r rule: priv_write.cases) auto

lemma priv_write_False: "priv_write r = Inr False \<longleftrightarrow> (\<exists>ex. r = Inl (EtcdException ex))"
  by (cases r rule: priv_write.cases) auto

lemma is_leader_demand [simp]: "is_leader (demand g s) = is_leader s"
  by (simp add: demand_def split: sum.split)

lemma is_leader_loop_head [simp]: "is_leader (loop_head s) = is_leader s"
  by (simp add: loop_head_def)

lemma is_leader_on_event [simp]: "is_leader (on_event ev s) = is_leader s"
  by (simp add: on_event_def split: sum.split)

lemma is_leader_priv_set_leader [simp]: "is_leader (priv_set_leader v s) = v"
  by (simp add: priv_set_leader_def Let_def split: option.split)

lemma is_leader_priv_on_watchdog [simp]: "is_leader (priv_on_watchdog s) = False"
  by (simp add: priv_on_watchdog_def)

lemma candidate_simps:
  "path candidate = ''lock''" "ttl candidate = 15" "interval candidate = 5"
  "identifier candidate = ''me''" "is_leader candidate = False" "watchdog candidate = None"
  "task candidate = Not_started" "timers candidate = Map.empty" "next_timer candidate = 0"
  by (simp_all add: candidate_def Election_init_def)

lemmas election_defs =
  next_state_def loop_head_def demand_def on_event_def priv_set_leader_def
  priv_on_watchdog_def blocked_in_def write_call_def Let_def

text \<open>
  A renewal, from the sleep to the outcome of its write: what holds of C2 when \<^verbatim>\<open>set\<close> returns or raises \<^verbatim>\<open>EtcdException\<close>.
\<close>

lemma renewal_step:
  "(task s = Sleeping \<longrightarrow>
      blocked_in s = Some (Sleep_call (interval s))
      \<and> next_state Wakes s = Some (s\<lparr>task := Renew_write\<rparr>))
   \<and> (task s1 = Renew_write \<longrightarrow>
      blocked_in s1
        = Some (Set_call (path s1) (PStr (identifier s1)) (PStr (identifier s1)) (PInt (ttl s1)))
      \<and> (\<exists>s2. next_state (Set_returns (Inr response)) s1 = Some s2
            \<and> is_leader s2 \<and> task s2 = Sleeping
            \<and> watchdog s2 = Some (next_timer s1)
            \<and> timers s2 = (case watchdog s1 of
                             None \<Rightarrow> timers s1
                           | Some h \<Rightarrow> (timers s1)(h := None))(next_timer s1 \<mapsto> ttl s1)
            \<and> next_timer s2 = next_timer s1 + 1)
      \<and> (\<exists>s3. next_state (Set_returns (Inl (EtcdException ex))) s1 = Some s3
            \<and> \<not> is_leader s3 \<and> task s3 = Watch_get (WBool False)
            \<and> blocked_in s3 = Some (Get_call (path s1) (WBool False))
            \<and> watchdog s3 = None
            \<and> timers s3 = (case watchdog s1 of
                             None \<Rightarrow> timers s1
                           | Some h \<Rightarrow> (timers s1)(h := None))))"
  by (auto simp: election_defs split: option.splits)

text \<open>
  The follower on one event, on the outcome of its write, and on a list of events that are passed over: what holds of C3 when \<^verbatim>\<open>set\<close> returns or raises \<^verbatim>\<open>EtcdException\<close>.
\<close>

lemma follower_step:
  "(task s = Watch_get index \<and> subscript (JObj event) ''action'' = Inr action
      \<and> next_index (Yielded event) = Inr index' \<longrightarrow>
      blocked_in s = Some (Get_call (path s) index)
      \<and> (action \<noteq> JStr ''delete'' \<and> action \<noteq> JStr ''expire'' \<longrightarrow>
           next_state (Get_returns (Inr event)) s = Some (s\<lparr>task := Watch_get index'\<rparr>))
      \<and> (action = JStr ''delete'' \<or> action = JStr ''expire'' \<longrightarrow>
           next_state (Get_returns (Inr event)) s = Some (s\<lparr>task := Acquire_write event\<rparr>)))
   \<and> (task s1 = Acquire_write event \<and> next_index (Yielded event) = Inr index' \<longrightarrow>
      blocked_in s1
        = Some (Set_call (path s1) (PStr (identifier s1)) (PBool False) (PInt (ttl s1)))
      \<and> next_state (Set_returns (Inl (EtcdException ex))) s1
          = Some (s1\<lparr>task := Watch_get index'\<rparr>)
      \<and> (\<exists>s2. next_state (Set_returns (Inr response)) s1 = Some s2
            \<and> is_leader s2 \<and> task s2 = Sleeping
            \<and> watchdog s2 = Some (next_timer s1)
            \<and> timers s2 = (case watchdog s1 of
                             None \<Rightarrow> timers s1
                           | Some h \<Rightarrow> (timers s1)(h := None))(next_timer s1 \<mapsto> ttl s1)))
   \<and> (task s = Watch_get index \<and> (\<forall>ev \<in> set evs. passed_over ev) \<longrightarrow>
      (\<exists>index'. run_events (map (\<lambda>ev. Get_returns (Inr ev)) evs) s
                  = Some (s\<lparr>task := Watch_get index'\<rparr>)))"
proof (intro conjI impI)
  assume a: "task s = Watch_get index \<and> subscript (JObj event) ''action'' = Inr action
      \<and> next_index (Yielded event) = Inr index'"
  then show "blocked_in s = Some (Get_call (path s) index)"
    by (simp add: blocked_in_def)
  {
    assume "action \<noteq> JStr ''delete'' \<and> action \<noteq> JStr ''expire''"
    with a show "next_state (Get_returns (Inr event)) s = Some (s\<lparr>task := Watch_get index'\<rparr>)"
      by (simp add: next_state_def on_event_def demand_def del: next_index.simps)
  }
  {
    assume "action = JStr ''delete'' \<or> action = JStr ''expire''"
    with a show "next_state (Get_returns (Inr event)) s = Some (s\<lparr>task := Acquire_write event\<rparr>)"
      by (auto simp: next_state_def on_event_def)
  }
next
  assume a: "task s1 = Acquire_write event \<and> next_index (Yielded event) = Inr index'"
  then show "blocked_in s1
        = Some (Set_call (path s1) (PStr (identifier s1)) (PBool False) (PInt (ttl s1)))"
    by (simp add: blocked_in_def write_call_def)
  from a show "next_state (Set_returns (Inl (EtcdException ex))) s1
          = Some (s1\<lparr>task := Watch_get index'\<rparr>)"
    by (simp add: next_state_def demand_def del: next_index.simps)
  from a show "\<exists>s2. next_state (Set_returns (Inr response)) s1 = Some s2
            \<and> is_leader s2 \<and> task s2 = Sleeping
            \<and> watchdog s2 = Some (next_timer s1)
            \<and> timers s2 = (case watchdog s1 of
                             None \<Rightarrow> timers s1
                           | Some h \<Rightarrow> (timers s1)(h := None))(next_timer s1 \<mapsto> ttl s1)"
    by (auto simp: election_defs split: option.splits)
next
  assume "task s = Watch_get index \<and> (\<forall>ev \<in> set evs. passed_over ev)"
  then show "\<exists>index'. run_events (map (\<lambda>ev. Get_returns (Inr ev)) evs) s
                  = Some (s\<lparr>task := Watch_get index'\<rparr>)"
  proof (induction evs arbitrary: s index)
    case Nil
    then have "s\<lparr>task := Watch_get index\<rparr> = s" by simp
    then show ?case by (metis run_events.simps(1) map_is_Nil_conv)
  next
    case (Cons ev evs)
    then have po: "passed_over ev" by simp
    then obtain i where step: "next_state (Get_returns (Inr ev)) s = Some (s\<lparr>task := Watch_get i\<rparr>)"
      using Cons.prems
      by (auto simp: passed_over_def next_state_def on_event_def demand_def
          simp del: next_index.simps split: sum.splits)
    have "task (s\<lparr>task := Watch_get i\<rparr>) = Watch_get i \<and> (\<forall>ev \<in> set evs. passed_over ev)"
      using Cons.prems by simp
    from Cons.IH [OF this] obtain index' where
      "run_events (map (\<lambda>ev. Get_returns (Inr ev)) evs) (s\<lparr>task := Watch_get i\<rparr>)
       = Some (s\<lparr>task := Watch_get index'\<rparr>)"
      by auto
    with step show ?case by auto
  qed
qed

text \<open>
  Both lemmas in runs of the instance of the examples.
\<close>

lemma renewal_step_example:
  "(\<exists>s. run_events [Starts, Set_returns (Inr (change ''set'' 3))] candidate = Some s
       \<and> blocked_in s = Some (Sleep_call 5)
       \<and> next_state Wakes s = Some (s\<lparr>task := Renew_write\<rparr>))
   \<and> (\<exists>s1 s2 s3. run_events [Starts, Set_returns (Inr (change ''set'' 3)), Wakes] candidate
                    = Some s1
       \<and> blocked_in s1 = Some (Set_call ''lock'' (PStr ''me'') (PStr ''me'') (PInt 15))
       \<and> next_state (Set_returns (Inr (change ''set'' 4))) s1 = Some s2
       \<and> is_leader s2 \<and> task s2 = Sleeping \<and> watchdog s2 = Some 1
       \<and> timers s2 0 = None \<and> timers s2 1 = Some 15
       \<and> next_state (Set_returns (Inl (EtcdException node_exist))) s1 = Some s3
       \<and> \<not> is_leader s3 \<and> task s3 = Watch_get (WBool False) \<and> timers s3 0 = None)"
proof (intro conjI)
  define s where "s = loop_head (priv_set_leader True (candidate\<lparr>task := Initial_write\<rparr>))"
  have run: "run_events [Starts, Set_returns (Inr (change ''set'' 3))] candidate = Some s"
    by (simp add: s_def next_state_def candidate_simps)
  have facts: "task s = Sleeping" "interval s = 5"
    by (simp_all add: s_def election_defs candidate_simps)
  from renewal_step [where s = s, THEN conjunct1] facts run
  show "\<exists>s. run_events [Starts, Set_returns (Inr (change ''set'' 3))] candidate = Some s
       \<and> blocked_in s = Some (Sleep_call 5)
       \<and> next_state Wakes s = Some (s\<lparr>task := Renew_write\<rparr>)"
    by auto
next
  define s1 where
    "s1 = (loop_head (priv_set_leader True (candidate\<lparr>task := Initial_write\<rparr>)))
            \<lparr>task := Renew_write\<rparr>"
  have run: "run_events [Starts, Set_returns (Inr (change ''set'' 3)), Wakes] candidate = Some s1"
    by (simp add: s1_def election_defs candidate_simps)
  have facts: "task s1 = Renew_write" "path s1 = ''lock''" "identifier s1 = ''me''"
    "ttl s1 = 15" "watchdog s1 = Some 0" "next_timer s1 = 1"
    by (simp_all add: s1_def election_defs candidate_simps)
  from renewal_step [where ?s1.0 = s1 and response = "change ''set'' 4" and ex = node_exist,
      THEN conjunct2] facts
  have "blocked_in s1 = Some (Set_call ''lock'' (PStr ''me'') (PStr ''me'') (PInt 15))
      \<and> (\<exists>s2. next_state (Set_returns (Inr (change ''set'' 4))) s1 = Some s2
            \<and> is_leader s2 \<and> task s2 = Sleeping \<and> watchdog s2 = Some 1
            \<and> timers s2 0 = None \<and> timers s2 1 = Some 15)
      \<and> (\<exists>s3. next_state (Set_returns (Inl (EtcdException node_exist))) s1 = Some s3
            \<and> \<not> is_leader s3 \<and> task s3 = Watch_get (WBool False) \<and> timers s3 0 = None)"
    by auto
  with run
  show "\<exists>s1 s2 s3. run_events [Starts, Set_returns (Inr (change ''set'' 3)), Wakes] candidate
                    = Some s1
       \<and> blocked_in s1 = Some (Set_call ''lock'' (PStr ''me'') (PStr ''me'') (PInt 15))
       \<and> next_state (Set_returns (Inr (change ''set'' 4))) s1 = Some s2
       \<and> is_leader s2 \<and> task s2 = Sleeping \<and> watchdog s2 = Some 1
       \<and> timers s2 0 = None \<and> timers s2 1 = Some 15
       \<and> next_state (Set_returns (Inl (EtcdException node_exist))) s1 = Some s3
       \<and> \<not> is_leader s3 \<and> task s3 = Watch_get (WBool False) \<and> timers s3 0 = None"
    by blast
qed

lemma follower_step_example:
  "(\<exists>s. run_events [Starts, Set_returns (Inl (EtcdException node_exist))] candidate = Some s
       \<and> blocked_in s = Some (Get_call ''lock'' (WBool False))
       \<and> next_state (Get_returns (Inr (change ''set'' 7))) s
           = Some (s\<lparr>task := Watch_get (WInt 8)\<rparr>)
       \<and> next_state (Get_returns (Inr (change ''expire'' 9))) s
           = Some (s\<lparr>task := Acquire_write (change ''expire'' 9)\<rparr>)
       \<and> run_events [Get_returns (Inr (change ''set'' 7)), Get_returns (Inr (change ''update'' 8))] s
           = Some (s\<lparr>task := Watch_get (WInt 9)\<rparr>))
   \<and> (\<exists>s1 s2. run_events [Starts, Set_returns (Inl (EtcdException node_exist)),
                           Get_returns (Inr (change ''expire'' 9))] candidate = Some s1
       \<and> blocked_in s1 = Some (Set_call ''lock'' (PStr ''me'') (PBool False) (PInt 15))
       \<and> next_state (Set_returns (Inl (EtcdException node_exist))) s1
           = Some (s1\<lparr>task := Watch_get (WInt 10)\<rparr>)
       \<and> next_state (Set_returns (Inr (change ''set'' 10))) s1 = Some s2
       \<and> is_leader s2 \<and> task s2 = Sleeping \<and> watchdog s2 = Some 0 \<and> timers s2 0 = Some 15)"
proof (intro conjI)
  define s where "s = candidate\<lparr>task := Watch_get (WBool False)\<rparr>"
  have run: "run_events [Starts, Set_returns (Inl (EtcdException node_exist))] candidate = Some s"
    by (simp add: s_def election_defs candidate_simps)
  have facts: "task s = Watch_get (WBool False)" "path s = ''lock''"
    by (simp_all add: s_def candidate_simps)
  have a: "blocked_in s = Some (Get_call ''lock'' (WBool False))
       \<and> next_state (Get_returns (Inr (change ''set'' 7))) s
           = Some (s\<lparr>task := Watch_get (WInt 8)\<rparr>)"
    using follower_step [where s = s and index = "WBool False"
        and event = "change ''set'' 7" and action = "JStr ''set''"
        and index' = "WInt 8", THEN conjunct1] facts
    by (simp add: change_def)
  have b: "next_state (Get_returns (Inr (change ''expire'' 9))) s
           = Some (s\<lparr>task := Acquire_write (change ''expire'' 9)\<rparr>)"
    using follower_step [where s = s and index = "WBool False"
        and event = "change ''expire'' 9" and action = "JStr ''expire''"
        and index' = "WInt 10", THEN conjunct1] facts
    by (simp add: change_def)
  have "\<exists>index'. run_events (map (\<lambda>ev. Get_returns (Inr ev))
                      [change ''set'' 7, change ''update'' 8]) s
                  = Some (s\<lparr>task := Watch_get index'\<rparr>)"
    using follower_step [where s = s and index = "WBool False"
        and evs = "[change ''set'' 7, change ''update'' 8]", THEN conjunct2, THEN conjunct2] facts
    by (simp add: passed_over_def change_def)
  then have c: "run_events [Get_returns (Inr (change ''set'' 7)),
                    Get_returns (Inr (change ''update'' 8))] s
           = Some (s\<lparr>task := Watch_get (WInt 9)\<rparr>)"
    by (simp add: s_def next_state_def on_event_def demand_def change_def candidate_simps)
  from run a b c
  show "\<exists>s. run_events [Starts, Set_returns (Inl (EtcdException node_exist))] candidate = Some s
       \<and> blocked_in s = Some (Get_call ''lock'' (WBool False))
       \<and> next_state (Get_returns (Inr (change ''set'' 7))) s
           = Some (s\<lparr>task := Watch_get (WInt 8)\<rparr>)
       \<and> next_state (Get_returns (Inr (change ''expire'' 9))) s
           = Some (s\<lparr>task := Acquire_write (change ''expire'' 9)\<rparr>)
       \<and> run_events [Get_returns (Inr (change ''set'' 7)), Get_returns (Inr (change ''update'' 8))] s
           = Some (s\<lparr>task := Watch_get (WInt 9)\<rparr>)"
    by blast
next
  define s1 where "s1 = candidate\<lparr>task := Acquire_write (change ''expire'' 9)\<rparr>"
  have run: "run_events [Starts, Set_returns (Inl (EtcdException node_exist)),
                           Get_returns (Inr (change ''expire'' 9))] candidate = Some s1"
    by (simp add: s1_def election_defs candidate_simps change_def)
  have facts: "task s1 = Acquire_write (change ''expire'' 9)" "path s1 = ''lock''"
    "identifier s1 = ''me''" "ttl s1 = 15" "watchdog s1 = None" "next_timer s1 = 0"
    by (simp_all add: s1_def candidate_simps)
  from follower_step [where ?s1.0 = s1 and event = "change ''expire'' 9" and index' = "WInt 10"
      and ex = node_exist and response = "change ''set'' 10", THEN conjunct2, THEN conjunct1] facts
  have "blocked_in s1 = Some (Set_call ''lock'' (PStr ''me'') (PBool False) (PInt 15))
       \<and> next_state (Set_returns (Inl (EtcdException node_exist))) s1
           = Some (s1\<lparr>task := Watch_get (WInt 10)\<rparr>)
       \<and> (\<exists>s2. next_state (Set_returns (Inr (change ''set'' 10))) s1 = Some s2
       \<and> is_leader s2 \<and> task s2 = Sleeping \<and> watchdog s2 = Some 0 \<and> timers s2 0 = Some 15)"
    by (auto simp: change_def)
  with run
  show "\<exists>s1 s2. run_events [Starts, Set_returns (Inl (EtcdException node_exist)),
                           Get_returns (Inr (change ''expire'' 9))] candidate = Some s1
       \<and> blocked_in s1 = Some (Set_call ''lock'' (PStr ''me'') (PBool False) (PInt 15))
       \<and> next_state (Set_returns (Inl (EtcdException node_exist))) s1
           = Some (s1\<lparr>task := Watch_get (WInt 10)\<rparr>)
       \<and> next_state (Set_returns (Inr (change ''set'' 10))) s1 = Some s2
       \<and> is_leader s2 \<and> task s2 = Sleeping \<and> watchdog s2 = Some 0 \<and> timers s2 0 = Some 15"
    by blast
qed

text \<open>
  The timers in every run: \<open>timers_ok\<close> holds of a new instance and every transition keeps it.
\<close>

lemma timers_ok_init:
  "timers_ok (Election_init p srvs_arg ttl_arg interval_arg identifier_arg uuid4)"
  by (simp add: timers_ok_def Election_init_def)

lemma timers_ok_task [simp]: "timers_ok (s\<lparr>task := t\<rparr>) = timers_ok s"
  by (simp add: timers_ok_def)

lemma timers_ok_demand [simp]: "timers_ok (demand g s) = timers_ok s"
  by (simp add: demand_def split: sum.split)

lemma timers_ok_loop_head [simp]: "timers_ok (loop_head s) = timers_ok s"
  by (simp add: loop_head_def)

lemma timers_ok_on_event [simp]: "timers_ok (on_event ev s) = timers_ok s"
  by (simp add: on_event_def split: sum.split)

lemma timers_ok_priv_set_leader: "timers_ok s \<Longrightarrow> timers_ok (priv_set_leader v s)"
  by (auto simp: timers_ok_def priv_set_leader_def Let_def split: option.splits)

lemma timers_ok_fire:
  "timers_ok s \<Longrightarrow> timers_ok (priv_on_watchdog (s\<lparr>timers := (timers s)(h := None)\<rparr>))"
  by (auto simp: timers_ok_def priv_on_watchdog_def)

lemma timers_ok_step:
  assumes "timers_ok s" and "next_state ev s = Some s'"
  shows "timers_ok s'"
  using assms
  by (cases ev; cases "task s")
     (auto simp: next_state_def timers_ok_priv_set_leader timers_ok_fire
           split: sum.splits if_splits option.splits)

lemma timers_ok_run:
  "timers_ok s \<Longrightarrow> run_events evs s = Some s' \<Longrightarrow> timers_ok s'"
  by (induction evs arbitrary: s) (auto split: option.splits dest: timers_ok_step)

text \<open>
  An \<^verbatim>\<open>HTTPError\<close> raised by \<^verbatim>\<open>set\<close> ends the task and changes nothing else.
\<close>

lemma other_exceptions_end_the_task:
  assumes "task s = Initial_write \<or> task s = Renew_write \<or> task s = Acquire_write event"
  shows "next_state (Set_returns (Inl (HTTPError status))) s
         = Some (s\<lparr>task := Died (HTTPError status)\<rparr>)"
  using assms by (auto simp: next_state_def)

section \<open>The requests of the watch and of the election\<close>

text \<open>
  The first demand of a watch sends an immediate read, and is over with the first answer.
\<close>

lemma first_demand_is_an_immediate_read:
  "\<exists>ps. ps ''wait'' = Some (PStr ''false'') \<and> ps ''waitIndex'' = None
       \<and> watch_iter_next e srvs p Fresh w =
           (case retry_rounds e ''GET'' p ps srvs w of
              None \<Rightarrow> None
            | Some (Inl ex, w') \<Rightarrow> Some (Inl ex, Finished, w')
            | Some (Inr result, w') \<Rightarrow> Some (Inr result, Yielded result, w'))"
  by (rule exI [of _ "bool_tokens [''recursive'' \<mapsto> PBool False, ''sorted'' \<mapsto> PBool False,
        ''wait'' \<mapsto> PBool False]"])
     (simp add: watch_iter_next_def Client_get_def Client_request_def bool_tokens_def)

lemma first_demand_does_not_wait:
  assumes "\<forall>i < length pre. net e (length (calls w) + i) = ConnectionError"
      and "net e (length (calls w) + length pre) = Response status body"
  shows "\<exists>r g w'. watch_iter_next e (pre @ server # rest) p Fresh w = Some (r, g, w')
           \<and> r = handle_response status body \<and> slept w' = slept w"
  using retry_rounds_answered [OF assms]
  by (auto simp: watch_iter_next_def Client_get_def Client_request_def split: sum.split)

text \<open>
  Two runs of the election on the client: an acquire and a renewal that the store accepts, and a start while another participant holds the lock.
\<close>

lemma acquire_and_renew_example:
  "\<exists>s0 s1 w1 s2 w2 s3 w3. next_state Starts candidate = Some s0
     \<and> complete (answering 201 (change ''create'' 3)) s0 io0 = Some (s1, w1)
     \<and> is_leader s1 \<and> task s1 = Sleeping \<and> watchdog s1 = Some 0
     \<and> complete (answering 200 (change ''set'' 4)) s1 w1 = Some (s2, w2)
     \<and> task s2 = Renew_write \<and> w2 = w1
     \<and> complete (answering 200 (change ''compareAndSwap'' 4)) s2 w2 = Some (s3, w3)
     \<and> is_leader s3 \<and> task s3 = Sleeping \<and> watchdog s3 = Some 1 \<and> timers s3 0 = None
     \<and> timers s3 1 = Some 15
     \<and> map http_method (calls w3) = [''PUT'', ''PUT'']
     \<and> map (\<lambda>c. http_params c ''prevExist'') (calls w3) = [Some (PStr ''false''), None]
     \<and> map (\<lambda>c. http_params c ''prevValue'') (calls w3) = [None, Some (PStr ''me'')]
     \<and> map (\<lambda>c. http_params c ''ttl'') (calls w3) = [Some (PInt 15), Some (PInt 15)]
     \<and> map http_url (calls w3) = [''http://localhost:4001/v2/keys/lock'', ''http://localhost:4001/v2/keys/lock'']"
  by (simp add: complete_def election_defs candidate_def Election_init_def Client_set_def
      request_first_server handle_response_def raise_for_status_def change_def io0_def
      logged_def bool_tokens_def)

lemma held_lock_at_start_example:
  "\<exists>s0 s1 w1. next_state Starts candidate = Some s0
     \<and> complete (answering 412 node_exist) s0 io0 = Some (s1, w1)
     \<and> task s1 = Died (HTTPError 412) \<and> \<not> is_leader s1"
  by (simp add: complete_def election_defs candidate_def Election_init_def Client_set_def
      request_first_server handle_response_def raise_for_status_def io0_def)

text \<open>
  A later demand of a watch: the read it sends after an event whose index is neither 0
  nor -1, and after one whose index is -1.
\<close>

lemma later_demand_resumes_after_index:
  assumes "subscript (JObj result) ''node'' = Inr node"
      and "subscript node ''modifiedIndex'' = Inr (JInt i)"
      and "i \<noteq> 0" and "i \<noteq> - 1"
  shows "\<exists>ps. ps ''wait'' = Some (PStr ''true'') \<and> ps ''waitIndex'' = Some (PInt (i + 1))
       \<and> watch_iter_next e srvs p (Yielded result) w =
           (case retry_rounds e ''GET'' p ps srvs w of
              None \<Rightarrow> None
            | Some (Inl ex, w') \<Rightarrow> Some (Inl ex, Finished, w')
            | Some (Inr result', w') \<Rightarrow> Some (Inr result', Yielded result', w'))"
proof -
  let ?raw = "[''recursive'' \<mapsto> PBool False, ''sorted'' \<mapsto> PBool False,
               ''wait'' \<mapsto> PInt (i + 1)](''waitIndex'' \<mapsto> PInt (i + 1), ''wait'' \<mapsto> PBool True)"
  have index: "next_index (Yielded result) = Inr (WInt (i + 1))"
    using assms(1,2) by simp
  have get: "Client_get e srvs p (WInt (i + 1)) w
             = retry_rounds e ''GET'' p (bool_tokens ?raw) srvs w"
    using assms(3,4) by (simp add: Client_get_def Client_request_def)
  have sent: "bool_tokens ?raw ''wait'' = Some (PStr ''true'')"
    "bool_tokens ?raw ''waitIndex'' = Some (PInt (i + 1))"
    using assms(3,4) by (simp_all add: bool_tokens_def)
  have "watch_iter_next e srvs p (Yielded result) w =
           (case retry_rounds e ''GET'' p (bool_tokens ?raw) srvs w of
              None \<Rightarrow> None
            | Some (Inl ex, w') \<Rightarrow> Some (Inl ex, Finished, w')
            | Some (Inr result', w') \<Rightarrow> Some (Inr result', Yielded result', w'))"
    by (simp add: watch_iter_next_def index get del: next_index.simps)
  with sent show ?thesis by blast
qed

text \<open>
  The two writes of the election as the requests that \<^verbatim>\<open>set\<close> sends.
\<close>

lemma acquire_on_the_wire:
  "\<exists>ps. perform e s (write_call (PBool False) s) w
          = retry_rounds e ''PUT'' (path s) ps (servers s) w
       \<and> ps ''value'' = Some (PStr (identifier s))
       \<and> ps ''prevExist'' = Some (PStr ''false'')
       \<and> ps ''prevValue'' = None \<and> ps ''prevIndex'' = None
       \<and> ps ''ttl'' = Some (if ttl s = 1 then PStr ''true''
                             else if ttl s = 0 then PStr ''false'' else PInt (ttl s))"
  by (auto simp: write_call_def Client_set_def Client_request_def bool_tokens_upd
      bool_tokens_empty)

lemma renewal_on_the_wire:
  "\<exists>ps. perform e s (write_call (PStr (identifier s)) s) w
          = retry_rounds e ''PUT'' (path s) ps (servers s) w
       \<and> ps ''value'' = Some (PStr (identifier s))
       \<and> ps ''prevValue'' = Some (PStr (identifier s))
       \<and> ps ''prevExist'' = None \<and> ps ''prevIndex'' = None
       \<and> ps ''ttl'' = Some (if ttl s = 1 then PStr ''true''
                             else if ttl s = 0 then PStr ''false'' else PInt (ttl s))"
  by (auto simp: write_call_def Client_set_def Client_request_def bool_tokens_upd
      bool_tokens_empty)

lemma later_demand_resumes_after_index_example:
  "\<exists>ps. ps ''wait'' = Some (PStr ''true'') \<and> ps ''waitIndex'' = Some (PInt 6)
       \<and> watch_iter_next (answering 200 (change ''set'' 8)) [''http://localhost:4001''] ''lock''
             (Yielded (change ''set'' 5)) io0 =
           (case retry_rounds (answering 200 (change ''set'' 8)) ''GET'' ''lock'' ps
                   [''http://localhost:4001''] io0 of
              None \<Rightarrow> None
            | Some (Inl ex, w') \<Rightarrow> Some (Inl ex, Finished, w')
            | Some (Inr result', w') \<Rightarrow> Some (Inr result', Yielded result', w'))"
  using later_demand_resumes_after_index
    [of "change ''set'' 5"
        "JObj [(''key'', JStr ''/lock''), (''value'', JStr ''me''),
               (''modifiedIndex'', JInt 5), (''createdIndex'', JInt 5)]"
        5 "answering 200 (change ''set'' 8)" "[''http://localhost:4001'']" "''lock''" io0]
  by (simp add: change_def)

lemma watch_after_index_minus_1_reads_at_once:
  "\<exists>w'. watch_iter_next (answering 200 (change ''set'' 5)) [''http://localhost:4001'']
           ''lock'' (Yielded (change ''set'' (- 1))) io0
         = Some (Inr (change ''set'' 5), Yielded (change ''set'' 5), w')
       \<and> map http_method (calls w') = [''GET'']
       \<and> map (\<lambda>c. http_params c ''wait'') (calls w') = [Some (PStr ''false'')]
       \<and> map (\<lambda>c. http_params c ''waitIndex'') (calls w') = [None]"
  by (simp add: watch_iter_next_def Client_get_def request_first_server io0_def
      handle_response_def raise_for_status_def logged_def bool_tokens_def change_def)

section \<open>The leadership flag\<close>

text \<open>
  C1. \<^verbatim>\<open>is_leader\<close> is \<^verbatim>\<open>False\<close> in a new instance. A transition that takes it from
  \<^verbatim>\<open>False\<close> to \<^verbatim>\<open>True\<close> is the return, without exception, of a \<^verbatim>\<open>set\<close> that the task
  was blocked in, with \<^verbatim>\<open>prev_value\<close> \<^verbatim>\<open>False\<close> (the key must not exist) or the
  instance's own identifier. A transition that takes it from \<^verbatim>\<open>True\<close> to \<^verbatim>\<open>False\<close> is
  a renewal whose \<^verbatim>\<open>set\<close> raised \<^verbatim>\<open>EtcdException\<close>, or the firing of a pending timer.
  The class has no \<^verbatim>\<open>cancel\<close> method, so cancellation adds no transition.
\<close>

theorem is_leader_transitions:
  "\<not> is_leader (Election_init p srvs_arg ttl_arg interval_arg identifier_arg uuid4)
   \<and> (next_state ev s = Some s' \<and> \<not> is_leader s \<and> is_leader s' \<longrightarrow>
        (\<exists>response. ev = Set_returns (Inr response))
        \<and> (\<exists>old. blocked_in s
                    = Some (Set_call (path s) (PStr (identifier s)) old (PInt (ttl s)))
                \<and> (old = PBool False \<or> old = PStr (identifier s))))
   \<and> (next_state ev s = Some s' \<and> is_leader s \<and> \<not> is_leader s' \<longrightarrow>
        (task s = Renew_write \<and> (\<exists>ex. ev = Set_returns (Inl (EtcdException ex))))
        \<or> (\<exists>h delay. ev = Timer_fires h \<and> timers s h = Some delay))"
proof (intro conjI impI)
  show "\<not> is_leader (Election_init p srvs_arg ttl_arg interval_arg identifier_arg uuid4)"
    by (simp add: Election_init_def)
next
  assume a: "next_state ev s = Some s' \<and> \<not> is_leader s \<and> is_leader s'"
  then show "\<exists>response. ev = Set_returns (Inr response)"
    by (cases ev; cases "task s")
       (auto simp: next_state_def priv_write_True split: sum.splits if_splits option.splits)
  from a show "\<exists>old. blocked_in s
                    = Some (Set_call (path s) (PStr (identifier s)) old (PInt (ttl s)))
                \<and> (old = PBool False \<or> old = PStr (identifier s))"
    by (cases ev; cases "task s")
       (auto simp: next_state_def blocked_in_def write_call_def
             split: sum.splits if_splits option.splits)
next
  assume a: "next_state ev s = Some s' \<and> is_leader s \<and> \<not> is_leader s'"
  then show "(task s = Renew_write \<and> (\<exists>ex. ev = Set_returns (Inl (EtcdException ex))))
        \<or> (\<exists>h delay. ev = Timer_fires h \<and> timers s h = Some delay)"
    by (cases ev; cases "task s")
       (auto simp: next_state_def priv_write_False split: sum.splits if_splits option.splits)
qed

text \<open>
  C1, in runs of the instance of the examples: the first acquire, a failed renewal and
  the firing of the watchdog.
\<close>

theorem is_leader_transitions_witness:
  "(\<exists>s s'. run_events [Starts] candidate = Some s
        \<and> next_state (Set_returns (Inr (change ''set'' 3))) s = Some s'
        \<and> \<not> is_leader s \<and> is_leader s'
        \<and> blocked_in s = Some (Set_call ''lock'' (PStr ''me'') (PBool False) (PInt 15)))
   \<and> (\<exists>s s'. run_events [Starts, Set_returns (Inr (change ''set'' 3)), Wakes] candidate = Some s
        \<and> next_state (Set_returns (Inl (EtcdException node_exist))) s = Some s'
        \<and> is_leader s \<and> \<not> is_leader s' \<and> task s = Renew_write)
   \<and> (\<exists>s s'. run_events [Starts, Set_returns (Inr (change ''set'' 3))] candidate = Some s
        \<and> next_state (Timer_fires 0) s = Some s'
        \<and> is_leader s \<and> \<not> is_leader s' \<and> timers s 0 = Some 15)"
proof (intro conjI)
  define s1 where "s1 = candidate\<lparr>task := Initial_write\<rparr>"
  define s2 where "s2 = loop_head (priv_set_leader True s1)"
  have run: "run_events [Starts] candidate = Some s1"
    by (simp add: s1_def next_state_def candidate_simps)
  have nxt: "next_state (Set_returns (Inr (change ''set'' 3))) s1 = Some s2"
    by (simp add: s1_def s2_def next_state_def)
  have lead: "\<not> is_leader s1" "is_leader s2"
    by (simp_all add: s1_def s2_def candidate_simps)
  have "\<exists>old. blocked_in s1 = Some (Set_call (path s1) (PStr (identifier s1)) old (PInt (ttl s1)))
          \<and> (old = PBool False \<or> old = PStr (identifier s1))"
    using is_leader_transitions [where ev = "Set_returns (Inr (change ''set'' 3))"
        and s = s1 and s' = s2] nxt lead
    by blast
  then have "blocked_in s1 = Some (Set_call ''lock'' (PStr ''me'') (PBool False) (PInt 15))"
    by (auto simp: s1_def candidate_simps blocked_in_def write_call_def)
  with run nxt lead
  show "\<exists>s s'. run_events [Starts] candidate = Some s
        \<and> next_state (Set_returns (Inr (change ''set'' 3))) s = Some s'
        \<and> \<not> is_leader s \<and> is_leader s'
        \<and> blocked_in s = Some (Set_call ''lock'' (PStr ''me'') (PBool False) (PInt 15))"
    by blast
next
  define s3 where
    "s3 = (loop_head (priv_set_leader True (candidate\<lparr>task := Initial_write\<rparr>)))
            \<lparr>task := Renew_write\<rparr>"
  define s4 where "s4 = loop_head (priv_set_leader False s3)"
  have run: "run_events [Starts, Set_returns (Inr (change ''set'' 3)), Wakes] candidate = Some s3"
    by (simp add: s3_def election_defs candidate_simps)
  have nxt: "next_state (Set_returns (Inl (EtcdException node_exist))) s3 = Some s4"
    by (simp add: s3_def s4_def next_state_def)
  have lead: "is_leader s3" "\<not> is_leader s4"
    by (simp_all add: s3_def s4_def)
  have "(task s3 = Renew_write
           \<and> (\<exists>ex. Set_returns (Inl (EtcdException node_exist))
                   = Set_returns (Inl (EtcdException ex))))
        \<or> (\<exists>h delay. Set_returns (Inl (EtcdException node_exist)) = Timer_fires h
              \<and> timers s3 h = Some delay)"
    using is_leader_transitions [where ev = "Set_returns (Inl (EtcdException node_exist))"
        and s = s3 and s' = s4] nxt lead
    by blast
  then have "task s3 = Renew_write" by simp
  with run nxt lead
  show "\<exists>s s'. run_events [Starts, Set_returns (Inr (change ''set'' 3)), Wakes] candidate = Some s
        \<and> next_state (Set_returns (Inl (EtcdException node_exist))) s = Some s'
        \<and> is_leader s \<and> \<not> is_leader s' \<and> task s = Renew_write"
    by blast
next
  define s2 where "s2 = loop_head (priv_set_leader True (candidate\<lparr>task := Initial_write\<rparr>))"
  define s5 where "s5 = priv_on_watchdog (s2\<lparr>timers := (timers s2)(0 := None)\<rparr>)"
  have run: "run_events [Starts, Set_returns (Inr (change ''set'' 3))] candidate = Some s2"
    by (simp add: s2_def next_state_def candidate_simps)
  have nxt: "next_state (Timer_fires 0) s2 = Some s5"
    by (simp add: s2_def s5_def election_defs candidate_simps)
  have lead: "is_leader s2" "\<not> is_leader s5"
    by (simp_all add: s2_def s5_def)
  have "(task s2 = Renew_write \<and> (\<exists>ex. Timer_fires 0 = Set_returns (Inl (EtcdException ex))))
        \<or> (\<exists>h delay. Timer_fires 0 = Timer_fires h \<and> timers s2 h = Some delay)"
    using is_leader_transitions [where ev = "Timer_fires 0" and s = s2 and s' = s5] nxt lead
    by blast
  then have "timers s2 0 = Some 15"
    by (auto simp: s2_def election_defs candidate_simps)
  with run nxt lead
  show "\<exists>s s'. run_events [Starts, Set_returns (Inr (change ''set'' 3))] candidate = Some s
        \<and> next_state (Timer_fires 0) s = Some s'
        \<and> is_leader s \<and> \<not> is_leader s' \<and> timers s 0 = Some 15"
    by blast
qed

section \<open>Renewal\<close>

text \<open>
  C2. The leader of the examples has slept and is blocked in its renewal: \<^verbatim>\<open>set\<close> with
  its identifier as value and as \<^verbatim>\<open>prev_value\<close>, and with \<^verbatim>\<open>ttl\<close>. The store no longer
  holds that value and rejects the write with status 412 and \<^verbatim>\<open>errorCode\<close> 101.
  \<^verbatim>\<open>raise_for_status\<close> raises \<^verbatim>\<open>HTTPError\<close>, which \<^verbatim>\<open>_write\<close> does not catch: the task
  ends, \<^verbatim>\<open>is_leader\<close> is still \<^verbatim>\<open>True\<close> and the watchdog is still pending. What the
  renewal does when \<^verbatim>\<open>set\<close> returns or raises \<^verbatim>\<open>EtcdException\<close> is lemma
  \<open>renewal_step\<close>.
\<close>

theorem rejected_renewal_ends_the_task:
  "\<exists>s1 s2 w. run_events [Starts, Set_returns (Inr (change ''set'' 3)), Wakes] candidate = Some s1
       \<and> is_leader s1
       \<and> blocked_in s1 = Some (Set_call ''lock'' (PStr ''me'') (PStr ''me'') (PInt 15))
       \<and> complete (answering 412 compare_failed) s1 io0 = Some (s2, w)
       \<and> task s2 = Died (HTTPError 412) \<and> blocked_in s2 = None
       \<and> is_leader s2 \<and> watchdog s2 = Some 0 \<and> timers s2 0 = Some 15"
proof -
  define s1 where
    "s1 = (loop_head (priv_set_leader True (candidate\<lparr>task := Initial_write\<rparr>)))
            \<lparr>task := Renew_write\<rparr>"
  have run: "run_events [Starts, Set_returns (Inr (change ''set'' 3)), Wakes] candidate = Some s1"
    by (simp add: s1_def election_defs candidate_simps)
  have facts: "task s1 = Renew_write" "path s1 = ''lock''" "identifier s1 = ''me''"
    "ttl s1 = 15" "watchdog s1 = Some 0" "timers s1 0 = Some 15" "is_leader s1"
    "servers s1 = [''http://localhost:4001'']"
    by (simp_all add: s1_def election_defs candidate_simps Election_init_def candidate_def)
  have blocked: "blocked_in s1 = Some (Set_call ''lock'' (PStr ''me'') (PStr ''me'') (PInt 15))"
    by (simp add: blocked_in_def write_call_def facts)
  have "\<exists>w. Client_set (answering 412 compare_failed) [''http://localhost:4001''] ''lock''
              (PStr ''me'') (PStr ''me'') (PInt 15) io0 = Some (Inl (HTTPError 412), w)"
    by (simp add: Client_set_def request_first_server handle_response_def raise_for_status_def)
  then obtain w where "complete (answering 412 compare_failed) s1 io0
        = Some (s1\<lparr>task := Died (HTTPError 412)\<rparr>, w)"
    by (auto simp: complete_def blocked facts next_state_def)
  with run blocked facts show ?thesis
    by (intro exI [of _ s1] exI [of _ "s1\<lparr>task := Died (HTTPError 412)\<rparr>"] exI [of _ w])
       (simp add: blocked_in_def)
qed

section \<open>Following\<close>

text \<open>
  C3. A follower receives an \<^verbatim>\<open>expire\<close> event and is blocked in \<^verbatim>\<open>set\<close> with
  \<^verbatim>\<open>prev_value=False\<close>. Another participant has already created the key, and the store
  rejects the write with status 412 and \<^verbatim>\<open>errorCode\<close> 105. \<^verbatim>\<open>raise_for_status\<close> raises
  \<^verbatim>\<open>HTTPError\<close>, which \<^verbatim>\<open>_write\<close> does not catch: the task ends and the watch is no
  longer consumed. What the follower does on events that are passed over, and when
  \<^verbatim>\<open>set\<close> returns or raises \<^verbatim>\<open>EtcdException\<close>, is lemma \<open>follower_step\<close>.
\<close>

theorem rejected_acquire_ends_the_task:
  "\<exists>s1 s2 w. run_events [Starts, Set_returns (Inl (EtcdException node_exist)),
                          Get_returns (Inr (change ''expire'' 9))] candidate = Some s1
       \<and> \<not> is_leader s1
       \<and> blocked_in s1 = Some (Set_call ''lock'' (PStr ''me'') (PBool False) (PInt 15))
       \<and> complete (answering 412 node_exist) s1 io0 = Some (s2, w)
       \<and> task s2 = Died (HTTPError 412) \<and> blocked_in s2 = None"
proof -
  define s1 where "s1 = candidate\<lparr>task := Acquire_write (change ''expire'' 9)\<rparr>"
  have run: "run_events [Starts, Set_returns (Inl (EtcdException node_exist)),
                          Get_returns (Inr (change ''expire'' 9))] candidate = Some s1"
    by (simp add: s1_def election_defs candidate_simps change_def)
  have facts: "task s1 = Acquire_write (change ''expire'' 9)" "path s1 = ''lock''"
    "identifier s1 = ''me''" "ttl s1 = 15" "\<not> is_leader s1"
    "servers s1 = [''http://localhost:4001'']"
    by (simp_all add: s1_def candidate_simps Election_init_def candidate_def)
  have blocked: "blocked_in s1 = Some (Set_call ''lock'' (PStr ''me'') (PBool False) (PInt 15))"
    by (simp add: blocked_in_def write_call_def facts)
  have "\<exists>w. Client_set (answering 412 node_exist) [''http://localhost:4001''] ''lock''
              (PStr ''me'') (PBool False) (PInt 15) io0 = Some (Inl (HTTPError 412), w)"
    by (simp add: Client_set_def request_first_server handle_response_def raise_for_status_def)
  then obtain w where "complete (answering 412 node_exist) s1 io0
        = Some (s1\<lparr>task := Died (HTTPError 412)\<rparr>, w)"
    by (auto simp: complete_def blocked facts next_state_def)
  with run blocked facts show ?thesis
    by (intro exI [of _ s1] exI [of _ "s1\<lparr>task := Died (HTTPError 412)\<rparr>"] exI [of _ w])
       (simp add: blocked_in_def)
qed

section \<open>Watching a path that does not exist\<close>

text \<open>
  C4. The docstring of \<^verbatim>\<open>watch_iter\<close> says that on a path that does not exist the
  iterator blocks until it does. The first demand calls \<^verbatim>\<open>get\<close> with \<^verbatim>\<open>wait=False\<close>:
  the request carries \<^verbatim>\<open>wait=false\<close> and no \<^verbatim>\<open>waitIndex\<close>, an immediate read. When
  the store answers it for a missing key (status 404, a body with \<^verbatim>\<open>errorCode\<close> 100),
  the demand does not wait: it raises \<^verbatim>\<open>HTTPError\<close> after this one call, without any
  sleep, and the generator is finished.
\<close>

theorem watch_on_missing_key_raises:
  "\<exists>w'. watch_iter_next (answering 404 key_not_found) [''http://localhost:4001''] ''lock''
           Fresh io0
         = Some (Inl (HTTPError 404), Finished, w')
       \<and> map http_method (calls w') = [''GET'']
       \<and> map (\<lambda>c. http_params c ''wait'') (calls w') = [Some (PStr ''false'')]
       \<and> map (\<lambda>c. http_params c ''waitIndex'') (calls w') = [None]
       \<and> slept w' = []"
  by (simp add: watch_iter_next_def Client_get_def request_first_server io0_def
      handle_response_def raise_for_status_def logged_def bool_tokens_def)

section \<open>Resuming a watch\<close>

text \<open>
  C5. Line 135 passes the index after the one of the event as \<^verbatim>\<open>wait\<close>, and the
  docstring of \<^verbatim>\<open>get\<close> takes an integer index. After an event with modification index 0
  the generator computes \<^verbatim>\<open>index = 1\<close>, and \<^verbatim>\<open>get\<close> takes \<^verbatim>\<open>1\<close> for \<^verbatim>\<open>True\<close>, since
  \<^verbatim>\<open>1 == True\<close>: the next demand sends \<^verbatim>\<open>wait=true\<close> with no \<^verbatim>\<open>waitIndex\<close>, a read that
  waits for the next change from now on instead of the changes from index 1 onward.
  What the demand sends after every other index but -1 is lemma
  \<open>later_demand_resumes_after_index\<close>.
\<close>

theorem watch_after_index_0_sends_no_waitIndex:
  "\<exists>w'. watch_iter_next (answering 200 (change ''set'' 5)) [''http://localhost:4001'']
           ''lock'' (Yielded (change ''set'' 0)) io0
         = Some (Inr (change ''set'' 5), Yielded (change ''set'' 5), w')
       \<and> map http_method (calls w') = [''GET'']
       \<and> map (\<lambda>c. http_params c ''wait'') (calls w') = [Some (PStr ''true'')]
       \<and> map (\<lambda>c. http_params c ''waitIndex'') (calls w') = [None]"
  by (simp add: watch_iter_next_def Client_get_def request_first_server io0_def
      handle_response_def raise_for_status_def logged_def bool_tokens_def change_def)

section \<open>What set reports\<close>

text \<open>
  C6, as stated, fails: when the store rejects a write whose key exists, \<^verbatim>\<open>set\<close> does
  not return a failure value. With a status below 400 it raises \<^verbatim>\<open>EtcdException\<close>, with
  status 412 it raises \<^verbatim>\<open>HTTPError\<close>.
\<close>

theorem set_raises_on_rejection:
  "(\<exists>w'. Client_set (answering 200 node_exist) [''http://localhost:4001''] ''lock''
            (PStr ''me'') (PBool False) (PInt 15) io0
          = Some (Inl (EtcdException node_exist), w'))
   \<and> (\<exists>w'. Client_set (answering 412 node_exist) [''http://localhost:4001''] ''lock''
            (PStr ''me'') (PBool False) (PInt 15) io0
          = Some (Inl (HTTPError 412), w'))"
  by (simp add: Client_set_def request_first_server handle_response_def raise_for_status_def
      node_exist_def)

text \<open>
  C6, amended. A call of \<^verbatim>\<open>set\<close> that passes the argument checks and is answered, by
  the first server that can be contacted, with a status that is not an HTTP error:
  it returns the decoded body when the body has no \<^verbatim>\<open>errorCode\<close>, and raises
  \<^verbatim>\<open>EtcdException\<close> carrying the whole decoded body when it has one. \<^verbatim>\<open>_write\<close> of the
  election turns the first into \<^verbatim>\<open>True\<close> and the second into \<^verbatim>\<open>False\<close>.
\<close>

theorem set_rejection_is_EtcdException:
  assumes "val \<noteq> PNone \<or> (t = PNone \<and> \<not> in_True_False prev_value)"
      and "\<forall>i < length pre. net e (length (calls w) + i) = ConnectionError"
      and "net e (length (calls w) + length pre) = Response status body"
      and "\<not> raise_for_status status"
  shows "\<exists>r w'. Client_set e (pre @ server # rest) p val prev_value t w = Some (r, w')
           \<and> r = (if ''errorCode'' \<in> fst ` set body then Inl (EtcdException body)
                   else Inr body)
           \<and> priv_write r = Inr (''errorCode'' \<notin> fst ` set body)"
  using assms(1,4) retry_rounds_answered [OF assms(2,3)]
  by (auto simp: Client_set_def Client_request_def Let_def handle_response_def)

text \<open>
  C6, amended, at a write that the second of two servers rejects, and at one that it
  accepts.
\<close>

theorem set_rejection_is_EtcdException_witness:
  "(\<exists>r w'. Client_set (down_then 1 200 node_exist) [''http://a'', ''http://b''] ''lock''
              (PStr ''me'') (PBool False) (PInt 15) io0 = Some (r, w')
           \<and> r = Inl (EtcdException node_exist) \<and> priv_write r = Inr False)
   \<and> (\<exists>r w'. Client_set (down_then 1 200 (change ''set'' 3)) [''http://a'', ''http://b'']
              ''lock'' (PStr ''me'') (PBool False) (PInt 15) io0 = Some (r, w')
           \<and> r = Inr (change ''set'' 3) \<and> priv_write r = Inr True)"
proof (intro conjI)
  show "\<exists>r w'. Client_set (down_then 1 200 node_exist) [''http://a'', ''http://b''] ''lock''
              (PStr ''me'') (PBool False) (PInt 15) io0 = Some (r, w')
           \<and> r = Inl (EtcdException node_exist) \<and> priv_write r = Inr False"
    using set_rejection_is_EtcdException
      [of "PStr ''me''" "PInt 15" "PBool False" "[''http://a'']" "down_then 1 200 node_exist"
          io0 200 node_exist "''http://b''" "[]" "''lock''"]
    by (simp add: down_then_def io0_def raise_for_status_def node_exist_def)
next
  show "\<exists>r w'. Client_set (down_then 1 200 (change ''set'' 3)) [''http://a'', ''http://b'']
              ''lock'' (PStr ''me'') (PBool False) (PInt 15) io0 = Some (r, w')
           \<and> r = Inr (change ''set'' 3) \<and> priv_write r = Inr True"
    using set_rejection_is_EtcdException
      [of "PStr ''me''" "PInt 15" "PBool False" "[''http://a'']"
          "down_then 1 200 (change ''set'' 3)"
          io0 200 "change ''set'' 3" "''http://b''" "[]" "''lock''"]
    by (simp add: down_then_def io0_def raise_for_status_def change_def)
qed

section \<open>Caller contract of set\<close>

text \<open>
  C7. A call of \<^verbatim>\<open>set\<close> whose value is \<^verbatim>\<open>None\<close> (a delete) and that also gives a ttl, or
  gives \<^verbatim>\<open>prev_value\<close> \<^verbatim>\<open>True\<close> or \<^verbatim>\<open>False\<close>, raises \<^verbatim>\<open>TypeError\<close> at once: the call
  returns with the error, and the record of the client's network calls and sleeps is the
  one it started with, whatever the servers and the network are.
\<close>

theorem delete_with_ttl_or_prev_exist_fails_fast:
  assumes "t \<noteq> PNone \<or> prev_value = PBool True \<or> prev_value = PBool False"
  shows "\<exists>msg. Client_set e srvs p PNone prev_value t w = Some (Inl (TypeError msg), w)"
  using assms by (auto simp: Client_set_def Let_def)

text \<open>
  C7, at a delete with a ttl and \<^verbatim>\<open>prev_value=False\<close>, on a network that is down.
\<close>

theorem delete_with_ttl_or_prev_exist_fails_fast_witness:
  "\<exists>msg. Client_set all_down [''http://localhost:4001''] ''lock'' PNone (PBool False)
          (PInt 15) io0
        = Some (Inl (TypeError msg), io0)"
  using delete_with_ttl_or_prev_exist_fails_fast
    [of "PInt 15" "PBool False" all_down "[''http://localhost:4001'']" "''lock''" io0]
  by simp

section \<open>Failover within a round\<close>

text \<open>
  C8. In a round where the servers \<open>pre\<close> cannot be contacted and the next server answers,
  the request is sent to each server of \<open>pre\<close> and then to that server, in order and
  without a sleep, and to none of the servers after it. What the answer makes of the call
  is decided at once: a 4xx or 5xx status raises \<^verbatim>\<open>HTTPError\<close>, a body with
  \<^verbatim>\<open>errorCode\<close> raises \<^verbatim>\<open>EtcdException\<close>.
\<close>

theorem connection_errors_skipped_protocol_errors_raised:
  assumes "\<forall>i < length pre. net e (length (calls w) + i) = ConnectionError"
      and "net e (length (calls w) + length pre) = Response status body"
  shows "Client_request e (pre @ server # rest) meth p ps w =
           Some (handle_response status body,
                 w\<lparr>calls := calls w @ logged meth p (bool_tokens ps) (pre @ [server])\<rparr>)
         \<and> (raise_for_status status \<longrightarrow> handle_response status body = Inl (HTTPError status))
         \<and> (\<not> raise_for_status status \<and> ''errorCode'' \<in> fst ` set body
              \<longrightarrow> handle_response status body = Inl (EtcdException body))"
  using retry_rounds_answered [OF assms]
  by (simp add: Client_request_def handle_response_def)

text \<open>
  C8, at three servers of which the first is down and the second answers: once with
  status 404, once with status 200 and a body with \<^verbatim>\<open>errorCode\<close>.
\<close>

theorem connection_errors_skipped_protocol_errors_raised_witness:
  "Client_request (down_then 1 404 key_not_found) [''http://a'', ''http://b'', ''http://c'']
     ''GET'' ''lock'' Map.empty io0
   = Some (Inl (HTTPError 404),
           io0\<lparr>calls := logged ''GET'' ''lock'' Map.empty [''http://a'', ''http://b'']\<rparr>)
   \<and> Client_request (down_then 1 200 node_exist) [''http://a'', ''http://b'', ''http://c'']
     ''GET'' ''lock'' Map.empty io0
   = Some (Inl (EtcdException node_exist),
           io0\<lparr>calls := logged ''GET'' ''lock'' Map.empty [''http://a'', ''http://b'']\<rparr>)"
proof
  show "Client_request (down_then 1 404 key_not_found) [''http://a'', ''http://b'', ''http://c'']
     ''GET'' ''lock'' Map.empty io0
   = Some (Inl (HTTPError 404),
           io0\<lparr>calls := logged ''GET'' ''lock'' Map.empty [''http://a'', ''http://b'']\<rparr>)"
    using connection_errors_skipped_protocol_errors_raised
      [of "[''http://a'']" "down_then 1 404 key_not_found" io0 404 key_not_found
          "''http://b''" "[''http://c'']" "''GET''" "''lock''" Map.empty]
    by (simp add: down_then_def io0_def raise_for_status_def bool_tokens_empty)
  show "Client_request (down_then 1 200 node_exist) [''http://a'', ''http://b'', ''http://c'']
     ''GET'' ''lock'' Map.empty io0
   = Some (Inl (EtcdException node_exist),
           io0\<lparr>calls := logged ''GET'' ''lock'' Map.empty [''http://a'', ''http://b'']\<rparr>)"
    using connection_errors_skipped_protocol_errors_raised
      [of "[''http://a'']" "down_then 1 200 node_exist" io0 200 node_exist
          "''http://b''" "[''http://c'']" "''GET''" "''lock''" Map.empty]
    by (simp add: down_then_def io0_def raise_for_status_def bool_tokens_empty node_exist_def)
qed

section \<open>Retrying when no server can be contacted\<close>

text \<open>
  C9, as stated, fails at its upper bound. \<^verbatim>\<open>random.random()\<close> returns a multiple of
  2 to the power \<open>-53\<close>; at the largest one below 1 the rounded result of line 67 is
  exactly \<open>6 = base * (1 + 0.2)\<close>. The run: two servers that cannot be contacted in the
  first round, one sleep of 6 seconds, an answer in the second round.
\<close>

theorem largest_draw_sleeps_upper_bound:
  "0 \<le> rand largest_draw 0 \<and> rand largest_draw 0 < 1
   \<and> (\<exists>w'. Client_request largest_draw [''http://a'', ''http://b''] ''GET'' ''lock''
               Map.empty io0
             = Some (Inr (change ''set'' 3), w')
           \<and> slept w' = [CONNECT_RETRY_INTERVAL * (1 + 2 / 10)]
           \<and> \<not> jittered (CONNECT_RETRY_INTERVAL * (1 + 2 / 10)))"
proof -
  let ?e = largest_draw
  let ?srvs = "[''http://a'', ''http://b'']"
  let ?w1 = "io0\<lparr>calls := calls io0 @ logged ''GET'' ''lock'' Map.empty ?srvs,
                 slept := slept io0 @ [retry_interval (rand ?e (length (slept io0)))]\<rparr>"
  have "retry_rounds ?e ''GET'' ''lock'' Map.empty ?srvs io0 =
        retry_rounds ?e ''GET'' ''lock'' Map.empty ?srvs ?w1"
    by (rule round_then_retry) (simp add: largest_draw_def io0_def)
  also have "\<dots> = Some (handle_response 200 (change ''set'' 3),
                 ?w1\<lparr>calls := calls ?w1 @ logged ''GET'' ''lock'' Map.empty ([] @ [''http://a''])\<rparr>)"
    using retry_rounds_answered [of "[]" ?e ?w1 200 "change ''set'' 3" "''GET''" "''lock''"
        Map.empty "''http://a''" "[''http://b'']"]
    by (simp add: largest_draw_def io0_def logged_def)
  finally have "\<exists>w'. Client_request ?e ?srvs ''GET'' ''lock'' Map.empty io0
             = Some (Inr (change ''set'' 3), w')
           \<and> slept w' = [CONNECT_RETRY_INTERVAL * (1 + 2 / 10)]"
    using retry_interval_at_top
    by (simp add: Client_request_def bool_tokens_empty handle_response_def raise_for_status_def
        change_def io0_def largest_draw_def CONNECT_RETRY_INTERVAL_def)
  then show ?thesis
    by (simp add: largest_draw_def jittered_def)
qed

text \<open>
  C9, amended. When no server of a round can be contacted, the request sleeps for a
  duration \<open>d\<close> with \<open>base * (1 - 0.2) \<le> d \<le> base * (1 + 0.2)\<close>, where \<open>base\<close> is
  \<^verbatim>\<open>CONNECT_RETRY_INTERVAL = 5\<close>, and goes on as the same request after that sleep. When
  no call ever connects, the request never returns and never raises. Every sleep of a
  request that does return is within these bounds.
\<close>

theorem unreachable_round_sleeps_and_retries:
  "((\<forall>i < length srvs. net e (length (calls w) + i) = ConnectionError)
      \<and> 0 \<le> rand e (length (slept w)) \<and> rand e (length (slept w)) < 1
     \<longrightarrow> (\<exists>d. jittered_le d
              \<and> Client_request e srvs meth p ps w =
                  Client_request e srvs meth p ps
                    (w\<lparr>calls := calls w @ logged meth p (bool_tokens ps) srvs,
                       slept := slept w @ [d]\<rparr>)))
   \<and> ((\<forall>k. net e k = ConnectionError) \<longrightarrow> Client_request e srvs meth p ps w = None)
   \<and> ((\<forall>k. 0 \<le> rand e k \<and> rand e k < 1) \<and> (\<forall>d \<in> set (slept w). jittered_le d)
        \<and> Client_request e srvs meth p ps w = Some (r, w')
     \<longrightarrow> (\<forall>d \<in> set (slept w'). jittered_le d))"
proof (intro conjI impI)
  assume a: "(\<forall>i < length srvs. net e (length (calls w) + i) = ConnectionError)
      \<and> 0 \<le> rand e (length (slept w)) \<and> rand e (length (slept w)) < 1"
  then have "jittered_le (retry_interval (rand e (length (slept w))))"
    by (intro jittered_le_retry_interval) simp_all
  moreover have "Client_request e srvs meth p ps w =
      Client_request e srvs meth p ps
        (w\<lparr>calls := calls w @ logged meth p (bool_tokens ps) srvs,
           slept := slept w @ [retry_interval (rand e (length (slept w)))]\<rparr>)"
    unfolding Client_request_def using a by (intro round_then_retry) simp
  ultimately show "\<exists>d. jittered_le d
              \<and> Client_request e srvs meth p ps w =
                  Client_request e srvs meth p ps
                    (w\<lparr>calls := calls w @ logged meth p (bool_tokens ps) srvs,
                       slept := slept w @ [d]\<rparr>)"
    by blast
next
  assume "\<forall>k. net e k = ConnectionError"
  then show "Client_request e srvs meth p ps w = None"
    unfolding Client_request_def by (rule retry_rounds_never_returns)
next
  assume a: "(\<forall>k. 0 \<le> rand e k \<and> rand e k < 1) \<and> (\<forall>d \<in> set (slept w). jittered_le d)
        \<and> Client_request e srvs meth p ps w = Some (r, w')"
  then have "retry_rounds e meth p (bool_tokens ps) srvs w = Some (r, w')"
    by (simp add: Client_request_def)
  from retry_rounds_slept_bounds [OF this] a show "\<forall>d \<in> set (slept w'). jittered_le d"
    by simp
qed

text \<open>
  C9, amended, at two servers: on a network that is down for good, and on one whose
  third call is answered, after one sleep of 5 seconds.
\<close>

theorem unreachable_round_sleeps_and_retries_witness:
  "Client_request all_down [''http://a'', ''http://b''] ''GET'' ''lock'' Map.empty io0 = None
   \<and> (\<exists>d. jittered_le d
          \<and> Client_request all_down [''http://a'', ''http://b''] ''GET'' ''lock'' Map.empty io0
            = Client_request all_down [''http://a'', ''http://b''] ''GET'' ''lock'' Map.empty
                \<lparr>calls = logged ''GET'' ''lock'' Map.empty [''http://a'', ''http://b''],
                 slept = [d]\<rparr>)
   \<and> (\<exists>w'. Client_request (down_then 2 200 (change ''set'' 3)) [''http://a'', ''http://b'']
               ''GET'' ''lock'' Map.empty io0
             = Some (Inr (change ''set'' 3), w')
           \<and> slept w' = [5] \<and> jittered_le 5)"
proof (intro conjI)
  show "Client_request all_down [''http://a'', ''http://b''] ''GET'' ''lock'' Map.empty io0 = None"
    using unreachable_round_sleeps_and_retries
      [of "[''http://a'', ''http://b'']" all_down io0 "''GET''" "''lock''" Map.empty]
    by (simp add: all_down_def)
next
  show "\<exists>d. jittered_le d
          \<and> Client_request all_down [''http://a'', ''http://b''] ''GET'' ''lock'' Map.empty io0
            = Client_request all_down [''http://a'', ''http://b''] ''GET'' ''lock'' Map.empty
                \<lparr>calls = logged ''GET'' ''lock'' Map.empty [''http://a'', ''http://b''],
                 slept = [d]\<rparr>"
    using unreachable_round_sleeps_and_retries
      [of "[''http://a'', ''http://b'']" all_down io0 "''GET''" "''lock''" Map.empty,
       THEN conjunct1]
    by (simp add: all_down_def io0_def bool_tokens_empty)
next
  let ?w' = "\<lparr>calls = logged ''GET'' ''lock'' Map.empty
                      [''http://a'', ''http://b'', ''http://a''],
            slept = [5]\<rparr>"
  have "\<forall>d \<in> set (slept ?w'). jittered_le d"
    using unreachable_round_sleeps_and_retries
      [of "[''http://a'', ''http://b'']" "down_then 2 200 (change ''set'' 3)" io0 "''GET''"
          "''lock''" Map.empty "Inr (change ''set'' 3)" ?w']
      down_then_run
    by (simp add: down_then_def io0_def)
  then show "\<exists>w'. Client_request (down_then 2 200 (change ''set'' 3)) [''http://a'', ''http://b'']
               ''GET'' ''lock'' Map.empty io0
             = Some (Inr (change ''set'' 3), w')
           \<and> slept w' = [5] \<and> jittered_le 5"
    using down_then_run by simp
qed

section \<open>Integers 0 and 1 at the interface of the client\<close>

text \<open>
  C10. \<^verbatim>\<open>set\<close> with \<^verbatim>\<open>prev_value\<close> 0 or 1 sends \<^verbatim>\<open>prevExist=false\<close> or
  \<^verbatim>\<open>prevExist=true\<close> and no \<^verbatim>\<open>prevIndex\<close>, exactly as with \<^verbatim>\<open>False\<close> or \<^verbatim>\<open>True\<close>;
  \<^verbatim>\<open>get\<close> with \<^verbatim>\<open>wait\<close> 0 or 1 sends \<^verbatim>\<open>wait=false\<close> or \<^verbatim>\<open>wait=true\<close> and no
  \<^verbatim>\<open>waitIndex\<close>, exactly as with \<^verbatim>\<open>False\<close> or \<^verbatim>\<open>True\<close>; and \<^verbatim>\<open>request\<close> sends any
  parameter whose value is 0 or 1 as \<^verbatim>\<open>false\<close> or \<^verbatim>\<open>true\<close>. Here \<open>retry_rounds\<close> with
  parameters \<open>ps\<close> is the loop that sends \<open>ps\<close> on every attempt.
\<close>

theorem zero_and_one_are_taken_for_booleans:
  "(val \<noteq> PNone \<and> (b = 0 \<or> b = 1) \<longrightarrow>
      (\<exists>ps. Client_set e srvs p val (PInt b) t w = retry_rounds e ''PUT'' p ps srvs w
          \<and> ps ''prevExist'' = Some (PStr (if b = 1 then ''true'' else ''false''))
          \<and> ps ''prevIndex'' = None))
   \<and> Client_set e srvs p val (PInt 1) t w = Client_set e srvs p val (PBool True) t w
   \<and> Client_set e srvs p val (PInt 0) t w = Client_set e srvs p val (PBool False) t w
   \<and> (b = 0 \<or> b = 1 \<longrightarrow>
      (\<exists>ps. Client_get e srvs p (WInt b) w = retry_rounds e ''GET'' p ps srvs w
          \<and> ps ''wait'' = Some (PStr (if b = 1 then ''true'' else ''false''))
          \<and> ps ''waitIndex'' = None))
   \<and> Client_get e srvs p (WInt 1) w = Client_get e srvs p (WBool True) w
   \<and> Client_get e srvs p (WInt 0) w = Client_get e srvs p (WBool False) w
   \<and> (ps0 k = Some (PInt b) \<and> (b = 0 \<or> b = 1) \<longrightarrow>
      (\<exists>ps. Client_request e srvs meth p ps0 w = retry_rounds e meth p ps srvs w
          \<and> ps k = Some (PStr (if b = 1 then ''true'' else ''false''))))"
proof (intro conjI impI)
  assume "val \<noteq> PNone \<and> (b = 0 \<or> b = 1)"
  then show "\<exists>ps. Client_set e srvs p val (PInt b) t w = retry_rounds e ''PUT'' p ps srvs w
          \<and> ps ''prevExist'' = Some (PStr (if b = 1 then ''true'' else ''false''))
          \<and> ps ''prevIndex'' = None"
    by (auto simp: Client_set_def Client_request_def Let_def bool_tokens_upd bool_tokens_empty)
next
  show "Client_set e srvs p val (PInt 1) t w = Client_set e srvs p val (PBool True) t w"
    by (simp add: Client_set_def Client_request_def Let_def bool_tokens_upd)
next
  show "Client_set e srvs p val (PInt 0) t w = Client_set e srvs p val (PBool False) t w"
    by (simp add: Client_set_def Client_request_def Let_def bool_tokens_upd)
next
  assume "b = 0 \<or> b = 1"
  then show "\<exists>ps. Client_get e srvs p (WInt b) w = retry_rounds e ''GET'' p ps srvs w
          \<and> ps ''wait'' = Some (PStr (if b = 1 then ''true'' else ''false''))
          \<and> ps ''waitIndex'' = None"
    by (auto simp: Client_get_def Client_request_def Let_def bool_tokens_upd bool_tokens_empty)
next
  show "Client_get e srvs p (WInt 1) w = Client_get e srvs p (WBool True) w"
    by (simp add: Client_get_def Client_request_def Let_def bool_tokens_upd)
next
  show "Client_get e srvs p (WInt 0) w = Client_get e srvs p (WBool False) w"
    by (simp add: Client_get_def Client_request_def Let_def bool_tokens_upd)
next
  assume "ps0 k = Some (PInt b) \<and> (b = 0 \<or> b = 1)"
  then show "\<exists>ps. Client_request e srvs meth p ps0 w = retry_rounds e meth p ps srvs w
          \<and> ps k = Some (PStr (if b = 1 then ''true'' else ''false''))"
    by (auto simp: Client_request_def bool_tokens_def)
qed

text \<open>
  C10, at \<^verbatim>\<open>prev_value=1\<close>, \<^verbatim>\<open>wait=1\<close> and \<^verbatim>\<open>ttl=1\<close>, on a network that answers.
\<close>

theorem zero_and_one_are_taken_for_booleans_witness:
  "(\<exists>ps. Client_set (answering 200 (change ''set'' 3)) [''http://a''] ''lock'' (PStr ''me'') (PInt 1) (PInt 15) io0
           = retry_rounds (answering 200 (change ''set'' 3)) ''PUT'' ''lock'' ps [''http://a''] io0
         \<and> ps ''prevExist'' = Some (PStr ''true'') \<and> ps ''prevIndex'' = None)
   \<and> (\<exists>ps. Client_get (answering 200 (change ''set'' 3)) [''http://a''] ''lock'' (WInt 1) io0
           = retry_rounds (answering 200 (change ''set'' 3)) ''GET'' ''lock'' ps [''http://a''] io0
         \<and> ps ''wait'' = Some (PStr ''true'') \<and> ps ''waitIndex'' = None)
   \<and> (\<exists>ps. Client_request (answering 200 (change ''set'' 3)) [''http://a''] ''PUT'' ''lock'' [''ttl'' \<mapsto> PInt 1] io0
           = retry_rounds (answering 200 (change ''set'' 3)) ''PUT'' ''lock'' ps [''http://a''] io0
         \<and> ps ''ttl'' = Some (PStr ''true''))"
  using zero_and_one_are_taken_for_booleans
    [of "PStr ''me''" 1 "answering 200 (change ''set'' 3)" "[''http://a'']" "''lock''" "PInt 15" io0
        "[''ttl'' \<mapsto> PInt 1]" "''ttl''" "''PUT''"]
  by (simp (no_asm_use)) (elim conjE, intro conjI; assumption)

end
